theory Spec2Isabelle
  imports Complex_Main
begin

section \<open>Python and numpy values\<close>

text \<open>
  The recommender algorithms of \<^verbatim>\<open>algo.py\<close> are embedded as HOL functions.
  Identifiers of users and movies are natural numbers, ratings are Python integers
  (\<open>int\<close>). A float64 value is the real number it denotes. The operations on floats are
  the exact ones of the reals, except in \<^verbatim>\<open>simMSDClone\<close>, whose result depends on the
  rounding: there every operation is followed by \<open>float64\<close>, the rounding to the nearest
  double defined below.
  A method that mutates \<open>self\<close> takes the object and returns the updated one; a method
  that can raise returns \<open>error + 'a\<close>, \<open>Inl\<close> carrying the exception.

  The reals have no nan: where numpy would go on with nan (the mean of an empty list) the
  model stops with \<open>Inl NanValue\<close>, so that no theorem is about a value the code does not
  have.
\<close>

datatype error = IndexError | ZeroDivisionError | NameError string | NanValue

definition ebind :: "error + 'a \<Rightarrow> ('a \<Rightarrow> error + 'b) \<Rightarrow> error + 'b" where
  "ebind m f = (case m of Inl e \<Rightarrow> Inl e | Inr v \<Rightarrow> f v)"

text \<open>
  A two-dimensional numpy array: its shape and its cells. Reading outside the shape
  raises IndexError (identifiers are never negative, so numpy's wrap-around of negative
  indices does not occur).
\<close>

record 'a ndarray =
  nrows :: nat
  ncols :: nat
  cells :: "nat \<times> nat \<Rightarrow> 'a"

definition item :: "'a ndarray \<Rightarrow> nat \<Rightarrow> nat \<Rightarrow> error + 'a" where
  "item a i j = (if i < nrows a \<and> j < ncols a then Inr (cells a (i, j)) else Inl IndexError)"

text \<open>\<^verbatim>\<open>a[i, j] = v\<close>, used by the code only inside the shape of \<open>a\<close>.\<close>

definition setitem :: "'a ndarray \<Rightarrow> nat \<Rightarrow> nat \<Rightarrow> 'a \<Rightarrow> 'a ndarray" where
  "setitem a i j v = a\<lparr>cells := (cells a)((i, j) := v)\<rparr>"

text \<open>\<^verbatim>\<open>a.T\<close>\<close>

definition transpose_array :: "'a ndarray \<Rightarrow> 'a ndarray" where
  "transpose_array a = \<lparr>nrows = ncols a, ncols = nrows a, cells = (\<lambda>(i, j). cells a (j, i))\<rparr>"

text \<open>\<^verbatim>\<open>np.array(rows)\<close> for a list of rows of one length; used to write concrete inputs.\<close>

definition array_of_rows :: "'a list list \<Rightarrow> 'a ndarray" where
  "array_of_rows rows =
     \<lparr>nrows = length rows,
      ncols = (case rows of [] \<Rightarrow> 0 | r # _ \<Rightarrow> length r),
      cells = (\<lambda>(i, j). rows ! i ! j)\<rparr>"

text \<open>
  \<^verbatim>\<open>np.mean\<close>, \<^verbatim>\<open>np.std\<close> and \<^verbatim>\<open>np.average(a, weights=w)\<close>. The mean of an empty list is
  nan in numpy. \<^verbatim>\<open>np.average\<close> raises ZeroDivisionError when the weights sum to zero.
\<close>

definition np_mean :: "real list \<Rightarrow> error + real" where
  "np_mean xs = (if xs = [] then Inl NanValue else Inr (sum_list xs / real (length xs)))"

definition np_std :: "real list \<Rightarrow> error + real" where
  "np_std xs =
     ebind (np_mean xs) (\<lambda>m. ebind (np_mean (map (\<lambda>x. (abs (x - m))\<^sup>2) xs)) (\<lambda>v. Inr (sqrt v)))"

definition np_average :: "real list \<Rightarrow> real list \<Rightarrow> error + real" where
  "np_average a w =
     (if sum_list w = 0 then Inl ZeroDivisionError
      else Inr (sum_list (map (\<lambda>(ai, wi). ai * wi) (zip a w)) / sum_list w))"

subsection \<open>Rounding to float64\<close>

text \<open>
  The power of two \<open>s\<close> with \<open>s \<le> a < 2 * s\<close>, searched from \<open>s\<close> downwards or upwards
  in at most \<open>n\<close> steps.
\<close>

fun find_scale :: "nat \<Rightarrow> real \<Rightarrow> real \<Rightarrow> real" where
  "find_scale 0 a s = s"
| "find_scale (Suc n) a s =
     (if a < s then find_scale n a (s / 2)
      else if 2 * s \<le> a then find_scale n a (2 * s)
      else s)"

text \<open>The integer nearest to \<open>q\<close>, the even one of the two when \<open>q\<close> is half-way.\<close>

definition round_even :: "real \<Rightarrow> int" where
  "round_even q =
     (let f = \<lfloor>q\<rfloor>; r = q - of_int f
      in if r < 1 / 2 then f else if 1 / 2 < r then f + 1 else if even f then f else f + 1)"

text \<open>
  The double nearest to \<open>x\<close> (IEEE 754 binary64, round to nearest, ties to even): a
  significand of 53 bits, so the doubles between \<open>s\<close> and \<open>2 * s\<close> are the multiples of
  \<open>s / 2 ^ 52\<close>. The range of the exponent is not modelled (no overflow to infinity, no
  subnormal numbers): the numbers of \<^verbatim>\<open>simMSDClone\<close> are differences of ratings, their
  means and squares, far from both ends.
\<close>

definition float64 :: "real \<Rightarrow> real" where
  "float64 x =
     (if x = 0 then 0
      else let a = \<bar>x\<bar>; s = find_scale 2200 a 1; ulp = s / 2 ^ 52
           in sgn x * (of_int (round_even (a / ulp)) * ulp))"

text \<open>
  A sum of floats from the left, every addition rounded: Python's \<^verbatim>\<open>sum\<close>, which starts
  at 0 and adds the elements in the order of the sequence.
\<close>

definition float_sum :: "real list \<Rightarrow> real" where
  "float_sum ts = foldl (\<lambda>s t. float64 (s + t)) 0 ts"

text \<open>
  \<^verbatim>\<open>np.mean\<close> of a list of integers: the sum of the elements as floats, divided by their
  number. (numpy adds long arrays pairwise; on the integers of a rating relation the sum
  is exact in any order.) The mean of an empty list is nan.
\<close>

definition np_mean64 :: "int list \<Rightarrow> error + real" where
  "np_mean64 ds =
     (if ds = [] then Inl NanValue
      else Inr (float64 (float_sum (map (\<lambda>d. float64 (of_int d)) ds)
                          / float64 (real (length ds)))))"

section \<open>The rating relation and the base class Algo\<close>

text \<open>
  \<open>ur\<close> and \<open>mr\<close> are dictionaries from an identifier to the list of its
  (identifier, rating) pairs, in the order the loader appended them. A dictionary is an
  association list, its order the order of \<^verbatim>\<open>items()\<close>.
\<close>

type_synonym ratings = "(nat \<times> int) list"
type_synonym ratings_dict = "(nat \<times> ratings) list"

text \<open>
  Modelled from the spec: the loader that builds \<^verbatim>\<open>ur\<close> and \<^verbatim>\<open>mr\<close> is not in
  \<^verbatim>\<open>algo.py\<close>. By sections 4.1, 4.3 and 7 of the spec the ratings of an entity with no
  rating are the empty sequence (no KeyError), which is what \<open>ratings_of\<close> returns for a
  key the dictionary does not hold.
\<close>

definition ratings_of :: "ratings_dict \<Rightarrow> nat \<Rightarrow> ratings" where
  "ratings_of d key = (case map_of d key of None \<Rightarrow> [] | Some l \<Rightarrow> l)"

record predInfo =
  wasImpossible :: bool
  pred_u0 :: nat
  pred_m0 :: nat
  pred_r0 :: int
  pred_est :: real

record algo =
  ub :: bool
  rm :: "int ndarray"
  lastXi :: nat
  lastYi :: nat
  xr :: ratings_dict
  yr :: ratings_dict
  est :: real
  preds :: "predInfo list"

text \<open>
  \<^verbatim>\<open>Algo.__init__\<close>. \<open>lastUi\<close> and \<open>lastMi\<close> are \<^verbatim>\<open>cmn.lastUi\<close> and \<^verbatim>\<open>cmn.lastMi\<close> of
  the module \<^verbatim>\<open>common\<close>, which is not in the sources: they are parameters.
\<close>

definition Algo_init :: "nat \<Rightarrow> nat \<Rightarrow> int ndarray \<Rightarrow> ratings_dict \<Rightarrow> ratings_dict \<Rightarrow> bool \<Rightarrow> algo" where
  "Algo_init lastUi lastMi rm0 ur mr movieBased =
     (if \<not> movieBased
      then \<lparr>ub = True, rm = transpose_array rm0, lastXi = lastUi, lastYi = lastMi,
            xr = ur, yr = mr, est = 0, preds = []\<rparr>
      else \<lparr>ub = False, rm = rm0, lastXi = lastMi, lastYi = lastUi,
            xr = mr, yr = ur, est = 0, preds = []\<rparr>)"

definition getx0y0 :: "'a algo_scheme \<Rightarrow> nat \<Rightarrow> nat \<Rightarrow> nat \<times> nat" where
  "getx0y0 self u0 m0 = (if ub self then (u0, m0) else (m0, u0))"

text \<open>\<^verbatim>\<open>updatePreds\<close>, without its printing.\<close>

definition updatePreds :: "'a algo_scheme \<Rightarrow> nat \<Rightarrow> nat \<Rightarrow> int \<Rightarrow> 'a algo_scheme" where
  "updatePreds self u0 m0 r0 =
     (let (e, imp) = (if est self = 0 then (3, True) else (est self, False))
      in self\<lparr>est := e,
              preds := preds self @
                [\<lparr>wasImpossible = imp, pred_u0 = u0, pred_m0 = m0, pred_r0 = r0, pred_est = e\<rparr>]\<rparr>)"

definition cut_estimate :: "'a algo_scheme \<Rightarrow> real \<Rightarrow> real \<Rightarrow> 'a algo_scheme" where
  "cut_estimate self lo hi = self\<lparr>est := max lo (min hi (est self))\<rparr>"

section \<open>AlgoClone and AlgoMeanDiff\<close>

text \<open>
  The list \<^verbatim>\<open>[(rm[x0, y], rm[x, y]) for (y, _) in xr[x0] if rm[x, y] > 0]\<close>, which both
  estimators build for every neighbour \<open>x\<close>.
\<close>

fun commonRatings :: "'a algo_scheme \<Rightarrow> nat \<Rightarrow> nat \<Rightarrow> ratings \<Rightarrow> error + (int \<times> int) list" where
  "commonRatings self x0 x [] = Inr []"
| "commonRatings self x0 x ((y, r) # ys) =
     ebind (item (rm self) x y) (\<lambda>rxy.
       if rxy > 0
       then ebind (item (rm self) x0 y) (\<lambda>rx0y.
              ebind (commonRatings self x0 x ys) (\<lambda>rest. Inr ((rx0y, rxy) # rest)))
       else commonRatings self x0 x ys)"

definition isClone :: "int list \<Rightarrow> int list \<Rightarrow> int \<Rightarrow> bool" where
  "isClone xa xb k =
     (let w = map (\<lambda>(xai, xbi). xai - xbi) (zip xa xb);
          sigma = sum_list (map (\<lambda>wi. abs (wi - k)) w)
      in sigma \<le> int (length w))"

text \<open>The loop of \<^verbatim>\<open>AlgoClone.estimate\<close> over the neighbours \<^verbatim>\<open>(x, rx)\<close> of \<^verbatim>\<open>yr[y0]\<close>.\<close>

fun clone_candidates :: "'a algo_scheme \<Rightarrow> nat \<Rightarrow> ratings \<Rightarrow> error + int list" where
  "clone_candidates self x0 [] = Inr []"
| "clone_candidates self x0 ((x, rx) # nbs) =
     ebind (commonRatings self x0 x (ratings_of (xr self) x0)) (\<lambda>cr.
       ebind (clone_candidates self x0 nbs) (\<lambda>cs.
         Inr ((if cr = [] then []
               else [rx + k. k \<leftarrow> [-4..4], isClone (map fst cr) (map snd cr) k]) @ cs)))"

definition AlgoClone_estimate :: "'a algo_scheme \<Rightarrow> nat \<Rightarrow> nat \<Rightarrow> error + 'a algo_scheme" where
  "AlgoClone_estimate self u0 m0 =
     (let (x0, y0) = getx0y0 self u0 m0
      in ebind (clone_candidates self x0 (ratings_of (yr self) y0)) (\<lambda>candidates.
           if candidates \<noteq> []
           then ebind (np_mean (map real_of_int candidates)) (\<lambda>m. Inr (self\<lparr>est := m\<rparr>))
           else Inr (self\<lparr>est := 0\<rparr>)))"

definition meanDiff :: "int list \<Rightarrow> int list \<Rightarrow> error + (real \<times> real)" where
  "meanDiff ra rb =
     (let diffs = map (\<lambda>(rai, rbi). real_of_int (rai - rbi)) (zip ra rb)
      in ebind (np_mean diffs) (\<lambda>md.
           ebind (np_std diffs) (\<lambda>sd. Inr (md, 1 / (sd + 1)))))"

text \<open>
  The loop of \<^verbatim>\<open>AlgoMeanDiff.estimate\<close>: the candidates and their weights, appended
  together.
\<close>

fun meandiff_candidates :: "'a algo_scheme \<Rightarrow> nat \<Rightarrow> ratings \<Rightarrow> error + (real \<times> real) list" where
  "meandiff_candidates self x0 [] = Inr []"
| "meandiff_candidates self x0 ((x, rx) # nbs) =
     ebind (commonRatings self x0 x (ratings_of (xr self) x0)) (\<lambda>cr.
       if cr = [] then meandiff_candidates self x0 nbs
       else ebind (meanDiff (map fst cr) (map snd cr)) (\<lambda>(md, w).
              ebind (meandiff_candidates self x0 nbs) (\<lambda>cws.
                Inr ((real_of_int rx + md, w) # cws))))"

definition AlgoMeanDiff_estimate :: "'a algo_scheme \<Rightarrow> nat \<Rightarrow> nat \<Rightarrow> error + 'a algo_scheme" where
  "AlgoMeanDiff_estimate self u0 m0 =
     (let (x0, y0) = getx0y0 self u0 m0
      in ebind (meandiff_candidates self x0 (ratings_of (yr self) y0)) (\<lambda>cws.
           if cws \<noteq> []
           then ebind (np_average (map fst cws) (map snd cws)) (\<lambda>a. Inr (self\<lparr>est := a\<rparr>))
           else Inr (self\<lparr>est := 0\<rparr>)))"

section \<open>AlgoUsingSim: the similarity matrix\<close>

record algoUsingSim = algo +
  simMat :: "real ndarray"

text \<open>\<^verbatim>\<open>itertools.combinations(l, 2)\<close>: the pairs of elements of \<open>l\<close>, in the order of \<open>l\<close>.\<close>

fun combinations2 :: "'a list \<Rightarrow> ('a \<times> 'a) list" where
  "combinations2 [] = []"
| "combinations2 (a # as) = map (Pair a) as @ combinations2 as"

text \<open>
  A \<^verbatim>\<open>defaultdict(int)\<close> keyed by pairs of identifiers: a key that was never written
  reads 0.
\<close>

type_synonym pairdict = "nat \<times> nat \<Rightarrow> int"

text \<open>
  The first loop of \<^verbatim>\<open>constructCosineSimMat\<close>: it returns \<open>prods\<close>, \<open>freq\<close>, \<open>sqi\<close> and
  \<open>sqj\<close>.
\<close>

definition cos_accumulate :: "ratings_dict \<Rightarrow> pairdict \<times> pairdict \<times> pairdict \<times> pairdict" where
  "cos_accumulate d =
     fold (\<lambda>(y, yRatings).
             fold (\<lambda>((xi, r1), (xj, r2)) (prods, freq, sqi, sqj).
                     (prods((xi, xj) := prods (xi, xj) + r1 * r2),
                      freq((xi, xj) := freq (xi, xj) + 1),
                      sqi((xi, xj) := sqi (xi, xj) + r1\<^sup>2),
                      sqj((xi, xj) := sqj (xi, xj) + r2\<^sup>2)))
                  (combinations2 yRatings))
          d (\<lambda>_. 0, \<lambda>_. 0, \<lambda>_. 0, \<lambda>_. 0)"

text \<open>
  The second loop of \<^verbatim>\<open>constructCosineSimMat\<close>, on the matrix \<open>simMat0\<close> that
  \<^verbatim>\<open>self.simMat\<close> holds when the method is called. The ratings listed in \<open>yr\<close> are
  positive, so \<open>denum\<close> is not 0 where it divides.
\<close>

definition constructCosineSimMat :: "'a algo_scheme \<Rightarrow> real ndarray \<Rightarrow> real ndarray" where
  "constructCosineSimMat self simMat0 =
     (let (prods, freq, sqi, sqj) = cos_accumulate (yr self)
      in fold (\<lambda>xi M.
           fold (\<lambda>xj M.
                  let M1 = (if freq (xi, xj) = 0 then setitem M xi xj 0
                            else let denum = sqrt (real_of_int (sqi (xi, xj) * sqj (xi, xj)))
                                 in setitem M xi xj (real_of_int (prods (xi, xj)) / denum))
                  in setitem M1 xj xi (cells M1 (xi, xj)))
                [xi + 1 ..< lastXi self + 1] (setitem M xi xi 1))
           [1 ..< lastXi self + 1] simMat0)"

text \<open>The first loop of \<^verbatim>\<open>constructMSDSimMat\<close>: it returns \<open>sqDiff\<close> and \<open>freq\<close>.\<close>

definition msd_accumulate :: "ratings_dict \<Rightarrow> pairdict \<times> pairdict" where
  "msd_accumulate d =
     fold (\<lambda>(y, yRatings).
             fold (\<lambda>((xi, r1), (xj, r2)) (sqDiff, freq).
                     (sqDiff((xi, xj) := sqDiff (xi, xj) + (r1 - r2)\<^sup>2),
                      freq((xi, xj) := freq (xi, xj) + 1)))
                  (combinations2 yRatings))
          d (\<lambda>_. 0, \<lambda>_. 0)"

text \<open>The second loop of \<^verbatim>\<open>constructMSDSimMat\<close>; its inner range starts at \<open>xi\<close>.\<close>

definition constructMSDSimMat :: "'a algo_scheme \<Rightarrow> real ndarray \<Rightarrow> real ndarray" where
  "constructMSDSimMat self simMat0 =
     (let (sqDiff, freq) = msd_accumulate (yr self)
      in fold (\<lambda>xi M.
           fold (\<lambda>xj M.
                  let M1 = (if sqDiff (xi, xj) = 0
                            then setitem M xi xj (real_of_int (freq (xi, xj)))
                            else setitem M xi xj
                                   (real_of_int (freq (xi, xj)) / real_of_int (sqDiff (xi, xj))))
                  in setitem M1 xj xi (cells M1 (xi, xj)))
                [xi ..< lastXi self + 1] (setitem M xi xi 100))
           [1 ..< lastXi self + 1] simMat0)"

text \<open>
  \<^verbatim>\<open>np.empty((n, m))\<close> allocates the array and does not write its cells: what they hold is
  not determined by the program. The content is a parameter of the model.
\<close>

definition np_empty :: "(nat \<times> nat \<Rightarrow> 'a) \<Rightarrow> nat \<Rightarrow> nat \<Rightarrow> 'a ndarray" where
  "np_empty uninit n m = \<lparr>nrows = n, ncols = m, cells = uninit\<rparr>"

text \<open>
  \<^verbatim>\<open>constructSimMat\<close> returns the value of \<^verbatim>\<open>self.simMat\<close> it leaves. For \<^verbatim>\<open>'MSDClone'\<close>
  neither branch is taken and the matrix stays as allocated.
\<close>

definition constructSimMat :: "(nat \<times> nat \<Rightarrow> real) \<Rightarrow> 'a algo_scheme \<Rightarrow> string \<Rightarrow> error + real ndarray" where
  "constructSimMat uninit self sim =
     (let knownSim = [''cos'', ''MSD'', ''MSDClone'']
      in if sim \<notin> set knownSim then Inl (NameError ''WrongSimName'')
         else let simMat0 = np_empty uninit (lastXi self + 1) (lastXi self + 1)
              in if sim = ''cos'' then Inr (constructCosineSimMat self simMat0)
                 else if sim = ''MSD'' then Inr (constructMSDSimMat self simMat0)
                 else Inr simMat0)"

text \<open>\<^verbatim>\<open>AlgoUsingSim.__init__\<close>\<close>

definition AlgoUsingSim_init ::
  "(nat \<times> nat \<Rightarrow> real) \<Rightarrow> nat \<Rightarrow> nat \<Rightarrow> int ndarray \<Rightarrow> ratings_dict \<Rightarrow> ratings_dict \<Rightarrow> bool \<Rightarrow> string
     \<Rightarrow> error + algoUsingSim" where
  "AlgoUsingSim_init uninit lastUi lastMi rm0 ur mr movieBased sim =
     (let self = Algo_init lastUi lastMi rm0 ur mr movieBased
      in ebind (constructSimMat uninit self sim) (\<lambda>M.
           Inr (algo.extend self (algoUsingSim.fields M))))"

text \<open>
  \<^verbatim>\<open>simMSDClone\<close>, without its printing: the list \<open>Yij\<close> in the order of \<^verbatim>\<open>xr[xi]\<close>, the
  differences \<^verbatim>\<open>rm[xi, y] - rm[xj, y]\<close> over it (integers), and the similarity, in float64:
  the mean, every \<^verbatim>\<open>d - meanDiff\<close>, every square, every addition of \<^verbatim>\<open>sum\<close> and the final
  division are rounded, in the order of \<open>Yij\<close>.
\<close>

fun common_ys :: "'a algo_scheme \<Rightarrow> nat \<Rightarrow> ratings \<Rightarrow> error + nat list" where
  "common_ys self xj [] = Inr []"
| "common_ys self xj ((y, r) # ys) =
     ebind (item (rm self) xj y) (\<lambda>rxjy.
       ebind (common_ys self xj ys) (\<lambda>rest. Inr (if rxjy > 0 then y # rest else rest)))"

fun rating_diffs :: "'a algo_scheme \<Rightarrow> nat \<Rightarrow> nat \<Rightarrow> nat list \<Rightarrow> error + int list" where
  "rating_diffs self xi xj [] = Inr []"
| "rating_diffs self xi xj (y # ys) =
     ebind (item (rm self) xi y) (\<lambda>a.
       ebind (item (rm self) xj y) (\<lambda>b.
         ebind (rating_diffs self xi xj ys) (\<lambda>rest. Inr ((a - b) # rest))))"

definition simMSDClone :: "'a algo_scheme \<Rightarrow> nat \<Rightarrow> nat \<Rightarrow> error + real" where
  "simMSDClone self xi xj =
     ebind (common_ys self xj (ratings_of (xr self) xi)) (\<lambda>Yij.
       if Yij = [] then Inr 0
       else ebind (rating_diffs self xi xj Yij) (\<lambda>ds.
              ebind (np_mean64 ds) (\<lambda>meanDiff.
                let ssd = float_sum
                            (map (\<lambda>d. float64 ((float64 (float64 (of_int d) - meanDiff))\<^sup>2)) ds)
                in if ssd = 0 then Inr (real (length Yij))
                   else Inr (float64 (float64 (real (length Yij)) / ssd)))))"

text \<open>
  The read \<^verbatim>\<open>self.simMat[xi, xj]\<close> of the estimators, on the matrix that
  \<^verbatim>\<open>AlgoUsingSim.__init__\<close> built for the metric \<open>sim\<close>.
\<close>

definition similarity :: "(nat \<times> nat \<Rightarrow> real) \<Rightarrow> 'a algo_scheme \<Rightarrow> string \<Rightarrow> nat \<Rightarrow> nat \<Rightarrow> error + real" where
  "similarity uninit self sim xi xj =
     ebind (constructSimMat uninit self sim) (\<lambda>simMat. item simMat xi xj)"

section \<open>AlgoBasicCollaborative\<close>

record algoBasicCollaborative = algoUsingSim +
  k :: nat

text \<open>\<^verbatim>\<open>AlgoBasicCollaborative.__init__\<close>; the caller passes \<open>sim\<close> (the default is \<^verbatim>\<open>'Cos'\<close>).\<close>

definition AlgoBasicCollaborative_init ::
  "(nat \<times> nat \<Rightarrow> real) \<Rightarrow> nat \<Rightarrow> nat \<Rightarrow> int ndarray \<Rightarrow> ratings_dict \<Rightarrow> ratings_dict \<Rightarrow> bool \<Rightarrow> string
     \<Rightarrow> error + algoBasicCollaborative" where
  "AlgoBasicCollaborative_init uninit lastUi lastMi rm0 ur mr movieBased sim =
     ebind (AlgoUsingSim_init uninit lastUi lastMi rm0 ur mr movieBased sim) (\<lambda>self.
       Inr (algoUsingSim.extend self (algoBasicCollaborative.fields 40)))"

text \<open>
  The list \<^verbatim>\<open>[(x, simMat[x0, x]) for x in range(1, lastXi + 1) if rm[x, y0] > 0]\<close>, over
  the list of the values of \<open>x\<close>.
\<close>

fun simX0_list :: "'a algoUsingSim_scheme \<Rightarrow> nat \<Rightarrow> nat \<Rightarrow> nat list \<Rightarrow> error + (nat \<times> real) list" where
  "simX0_list self x0 y0 [] = Inr []"
| "simX0_list self x0 y0 (x # xs) =
     ebind (item (rm self) x y0) (\<lambda>r.
       if r > 0
       then ebind (item (simMat self) x0 x) (\<lambda>s.
              ebind (simX0_list self x0 y0 xs) (\<lambda>rest. Inr ((x, s) # rest)))
       else simX0_list self x0 y0 xs)"

text \<open>
  \<^verbatim>\<open>sorted(l, key=key, reverse=True)\<close>: by decreasing key, elements of equal key in their
  order in \<open>l\<close> (Python's sort is stable, also when reversed).
\<close>

definition sorted_reverse :: "('a \<Rightarrow> real) \<Rightarrow> 'a list \<Rightarrow> 'a list" where
  "sorted_reverse key l = sort_key (\<lambda>x. - key x) l"

text \<open>The list \<^verbatim>\<open>[rm[x, y0] for (x, _) in simX0[:k]]\<close>.\<close>

fun ratNeighboors :: "'a algo_scheme \<Rightarrow> nat \<Rightarrow> (nat \<times> real) list \<Rightarrow> error + real list" where
  "ratNeighboors self y0 [] = Inr []"
| "ratNeighboors self y0 ((x, s) # nbs) =
     ebind (item (rm self) x y0) (\<lambda>r.
       ebind (ratNeighboors self y0 nbs) (\<lambda>rest. Inr (real_of_int r # rest)))"

definition AlgoBasicCollaborative_estimate ::
  "'a algoBasicCollaborative_scheme \<Rightarrow> nat \<Rightarrow> nat \<Rightarrow> error + 'a algoBasicCollaborative_scheme" where
  "AlgoBasicCollaborative_estimate self u0 m0 =
     (let (x0, y0) = getx0y0 self u0 m0
      in ebind (simX0_list self x0 y0 [1 ..< lastXi self + 1]) (\<lambda>simX0.
           if simX0 = [] then Inr (self\<lparr>est := 0\<rparr>)
           else let simX0 = sorted_reverse snd simX0;
                    simNeighboors = map snd (take (k self) simX0)
                in ebind (ratNeighboors self y0 (take (k self) simX0)) (\<lambda>rats.
                     case np_average rats simNeighboors of
                       Inl ZeroDivisionError \<Rightarrow> Inr (self\<lparr>est := 0\<rparr>)
                     | Inl e \<Rightarrow> Inl e
                     | Inr a \<Rightarrow> Inr (self\<lparr>est := a\<rparr>))))"

section \<open>AlgoWithBaseline and AlgoBaselineOnly\<close>

record algoWithBaseline = algo +
  mu :: real
  xBiases :: "real list"
  yBiases :: "real list"

text \<open>A one-dimensional numpy array is a list; \<^verbatim>\<open>a[i]\<close> raises IndexError outside it.\<close>

definition item1 :: "'a list \<Rightarrow> nat \<Rightarrow> error + 'a" where
  "item1 a i = (if i < length a then Inr (a ! i) else Inl IndexError)"

text \<open>\<^verbatim>\<open>[r for l in a for r in l]\<close>: the cells of a matrix, row after row.\<close>

definition entries :: "'a ndarray \<Rightarrow> 'a list" where
  "entries a = concat (map (\<lambda>i. map (\<lambda>j. cells a (i, j)) [0 ..< ncols a]) [0 ..< nrows a])"

text \<open>\<^verbatim>\<open>iterAllRatings\<close>, as the list it yields.\<close>

definition iterAllRatings :: "'a algo_scheme \<Rightarrow> (nat \<times> nat \<times> int) list" where
  "iterAllRatings self = concat (map (\<lambda>(x, xRatings). map (\<lambda>(y, r). (x, y, r)) xRatings) (xr self))"

text \<open>One step of the inner loop of \<^verbatim>\<open>optimize_sgd\<close>, on the two arrays of biases.\<close>

definition sgd_step :: "real \<Rightarrow> nat \<times> nat \<times> int \<Rightarrow> real list \<times> real list \<Rightarrow> error + real list \<times> real list" where
  "sgd_step m t b =
     (case (t, b) of ((x, y, r), (xb, yb)) \<Rightarrow>
        let lambda4 = 2 / 100; gamma = 5 / 1000
        in ebind (item1 xb x) (\<lambda>bx.
             ebind (item1 yb y) (\<lambda>by.
               let err = real_of_int r - (m + bx + by);
                   xb' = xb[x := bx + gamma * (err - lambda4 * bx)];
                   yb' = yb[y := by + gamma * (err - lambda4 * by)]
               in Inr (xb', yb'))))"

fun sgd_pass :: "real \<Rightarrow> (nat \<times> nat \<times> int) list \<Rightarrow> real list \<times> real list \<Rightarrow> error + real list \<times> real list" where
  "sgd_pass m [] b = Inr b"
| "sgd_pass m (t # ts) b = ebind (sgd_step m t b) (sgd_pass m ts)"

fun sgd_passes :: "nat \<Rightarrow> real \<Rightarrow> (nat \<times> nat \<times> int) list \<Rightarrow> real list \<times> real list \<Rightarrow> error + real list \<times> real list" where
  "sgd_passes 0 m ts b = Inr b"
| "sgd_passes (Suc n) m ts b = ebind (sgd_pass m ts b) (sgd_passes n m ts)"

definition optimize_sgd :: "'a algoWithBaseline_scheme \<Rightarrow> error + 'a algoWithBaseline_scheme" where
  "optimize_sgd self =
     (let nIter = 20
      in ebind (sgd_passes nIter (mu self) (iterAllRatings self) (xBiases self, yBiases self))
           (\<lambda>(xb, yb). Inr (self\<lparr>xBiases := xb, yBiases := yb\<rparr>)))"

text \<open>
  \<^verbatim>\<open>sum(r - mu - other[x] for (x, r) in ratings)\<close>, the deviation of one entity in
  \<^verbatim>\<open>optimize_als\<close>; \<open>other\<close> is the array of the biases of the other axis.
\<close>

fun dev_sum :: "real \<Rightarrow> real list \<Rightarrow> ratings \<Rightarrow> error + real" where
  "dev_sum m other [] = Inr 0"
| "dev_sum m other ((x, r) # l) =
     ebind (item1 other x) (\<lambda>b.
       ebind (dev_sum m other l) (\<lambda>s. Inr ((real_of_int r - m - b) + s)))"

text \<open>
  One of the two inner loops of \<^verbatim>\<open>optimize_als\<close>: for each identifier of \<open>ids\<close> the
  bias is the deviation divided by \<open>reg\<close> plus the number of ratings. The writes are
  inside the array, which has an entry for every identifier of the loop.
\<close>

fun als_sweep :: "real \<Rightarrow> real \<Rightarrow> real list \<Rightarrow> ratings_dict \<Rightarrow> nat list \<Rightarrow> real list \<Rightarrow> error + real list" where
  "als_sweep m reg other d [] biases = Inr biases"
| "als_sweep m reg other d (y # ys) biases =
     ebind (dev_sum m other (ratings_of d y)) (\<lambda>dev.
       als_sweep m reg other d ys
         (biases[y := dev / (reg + real (length (ratings_of d y)))]))"

text \<open>One round of the outer loop of \<^verbatim>\<open>optimize_als\<close>: the sweep over \<open>y\<close>, then over \<open>x\<close>.\<close>

definition als_iteration :: "'a algoWithBaseline_scheme \<Rightarrow> error + 'a algoWithBaseline_scheme" where
  "als_iteration self =
     (let reg_u = 15; reg_i = 10;
          reg_x = (if ub self then reg_u else reg_i);
          reg_y = (if \<not> ub self then reg_u else reg_i)
      in ebind (als_sweep (mu self) reg_y (xBiases self) (yr self) [1 ..< lastYi self + 1]
                  (replicate (lastYi self + 1) 0)) (\<lambda>yb.
           ebind (als_sweep (mu self) reg_x yb (xr self) [1 ..< lastXi self + 1]
                    (replicate (lastXi self + 1) 0)) (\<lambda>xb.
             Inr (self\<lparr>xBiases := xb, yBiases := yb\<rparr>))))"

fun als_iterations :: "nat \<Rightarrow> 'a algoWithBaseline_scheme \<Rightarrow> error + 'a algoWithBaseline_scheme" where
  "als_iterations 0 self = Inr self"
| "als_iterations (Suc n) self = ebind (als_iteration self) (als_iterations n)"

definition optimize_als :: "'a algoWithBaseline_scheme \<Rightarrow> error + 'a algoWithBaseline_scheme" where
  "optimize_als self = (let nIter = 10 in als_iterations nIter self)"

text \<open>
  \<^verbatim>\<open>AlgoWithBaseline.__init__\<close>. The mean of no rating at all is nan in numpy; the model
  stops there with \<open>NanValue\<close>.
\<close>

definition AlgoWithBaseline_init ::
  "nat \<Rightarrow> nat \<Rightarrow> int ndarray \<Rightarrow> ratings_dict \<Rightarrow> ratings_dict \<Rightarrow> bool \<Rightarrow> string
     \<Rightarrow> error + algoWithBaseline" where
  "AlgoWithBaseline_init lastUi lastMi rm0 ur mr movieBased method =
     (let self = Algo_init lastUi lastMi rm0 ur mr movieBased
      in ebind (np_mean (map real_of_int (filter (\<lambda>r. r > 0) (entries (rm self))))) (\<lambda>m.
           let self = algo.extend self
                        (algoWithBaseline.fields m (replicate (lastXi self + 1) 0)
                           (replicate (lastYi self + 1) 0))
           in if method = ''sgd'' then optimize_sgd self
              else if method = ''als'' then optimize_als self
              else Inr self))"

definition getBaseline :: "'a algoWithBaseline_scheme \<Rightarrow> nat \<Rightarrow> nat \<Rightarrow> error + real" where
  "getBaseline self x y =
     ebind (item1 (xBiases self) x) (\<lambda>bx.
       ebind (item1 (yBiases self) y) (\<lambda>by. Inr (mu self + bx + by)))"

text \<open>\<^verbatim>\<open>AlgoBaselineOnly.estimate\<close>\<close>

definition AlgoBaselineOnly_estimate ::
  "'a algoWithBaseline_scheme \<Rightarrow> nat \<Rightarrow> nat \<Rightarrow> error + 'a algoWithBaseline_scheme" where
  "AlgoBaselineOnly_estimate self u0 m0 =
     (let (x0, y0) = getx0y0 self u0 m0
      in ebind (getBaseline self x0 y0) (\<lambda>b. Inr (self\<lparr>est := b\<rparr>)))"

section \<open>AlgoRandom\<close>

record algoRandom = algo +
  distrib :: "real list"

text \<open>
  The loops of \<^verbatim>\<open>AlgoRandom.__init__\<close> over \<^verbatim>\<open>range(1, lastXi)\<close> and
  \<^verbatim>\<open>range(1, lastYi)\<close>, on the list \<open>fqs\<close> of five counters.
\<close>

definition count_rating :: "'a algo_scheme \<Rightarrow> nat \<times> nat \<Rightarrow> int list \<Rightarrow> error + int list" where
  "count_rating self p fqs =
     (case p of (x, y) \<Rightarrow>
        ebind (item (rm self) x y) (\<lambda>r.
          if r > 0
          then (if nat (r - 1) < length fqs
                then Inr (fqs[nat (r - 1) := fqs ! nat (r - 1) + 1])
                else Inl IndexError)
          else Inr fqs))"

fun count_ratings :: "'a algo_scheme \<Rightarrow> (nat \<times> nat) list \<Rightarrow> int list \<Rightarrow> error + int list" where
  "count_ratings self [] fqs = Inr fqs"
| "count_ratings self (p # ps) fqs = ebind (count_rating self p fqs) (count_ratings self ps)"

text \<open>
  \<^verbatim>\<open>AlgoRandom.__init__\<close>, which calls \<^verbatim>\<open>Algo.__init__\<close> with the default
  \<^verbatim>\<open>movieBased=False\<close>. The division of two Python integers raises ZeroDivisionError when
  no rating was counted. \<open>distrib\<close> holds the probabilities of the ratings 1 to 5 that
  are given to \<^verbatim>\<open>rv_discrete\<close>.
\<close>

definition AlgoRandom_init ::
  "nat \<Rightarrow> nat \<Rightarrow> int ndarray \<Rightarrow> ratings_dict \<Rightarrow> ratings_dict \<Rightarrow> error + algoRandom" where
  "AlgoRandom_init lastUi lastMi rm0 ur mr =
     (let self = Algo_init lastUi lastMi rm0 ur mr False
      in ebind (count_ratings self
                  (concat (map (\<lambda>x. map (\<lambda>y. (x, y)) [1 ..< lastYi self]) [1 ..< lastXi self]))
                  [0, 0, 0, 0, 0]) (\<lambda>fqs.
           if sum_list fqs = 0 then Inl ZeroDivisionError
           else Inr (algo.extend self
                  (algoRandom.fields
                     (map (\<lambda>fq. real_of_int fq / real_of_int (sum_list fqs)) fqs)))))"

text \<open>
  \<^verbatim>\<open>AlgoRandom.estimate\<close> takes any arguments and ignores them. The value \<open>rvs\<close> that
  \<^verbatim>\<open>self.distrib.rvs()\<close> draws is a parameter of the model.
\<close>

definition AlgoRandom_estimate :: "'a algoRandom_scheme \<Rightarrow> int \<Rightarrow> nat \<Rightarrow> nat \<Rightarrow> 'a algoRandom_scheme" where
  "AlgoRandom_estimate self rvs u0 m0 = self\<lparr>est := real_of_int rvs\<rparr>"

section \<open>The quantities of the spec and the conditions on the relation\<close>

text \<open>
  Section 4.2 of the spec in its own words, on the index \<open>byY\<close> (the dictionary \<open>yr\<close>):
  the co-rating count of two entities is the number of Y-entities that both rated, and
  \<open>sqDiff\<close> is the sum over these of the squared difference of the two ratings. The
  rating of \<open>x\<close> in a sequence is the one \<open>map_of\<close> finds.
\<close>

definition co_rating_count :: "ratings_dict \<Rightarrow> nat \<Rightarrow> nat \<Rightarrow> int" where
  "co_rating_count d i j =
     int (length (filter (\<lambda>(y, l). i \<in> fst ` set l \<and> j \<in> fst ` set l) d))"

definition squared_difference :: "ratings_dict \<Rightarrow> nat \<Rightarrow> nat \<Rightarrow> int" where
  "squared_difference d i j =
     sum_list (map (\<lambda>(y, l). case map_of l i of None \<Rightarrow> 0
                      | Some r1 \<Rightarrow> (case map_of l j of None \<Rightarrow> 0 | Some r2 \<Rightarrow> (r1 - r2)\<^sup>2)) d)"

text \<open>The two entities gave the same rating to every Y-entity that both rated.\<close>

definition ratings_agree :: "ratings_dict \<Rightarrow> nat \<Rightarrow> nat \<Rightarrow> bool" where
  "ratings_agree d i j =
     list_all (\<lambda>(y, l). list_all (\<lambda>(x1, r1). list_all (\<lambda>(x2, r2). x1 = i \<and> x2 = j \<longrightarrow> r1 = r2) l) l) d"

text \<open>
  Every sequence of an index (\<open>byY\<close> or \<open>byX\<close>) lists its entities by strictly increasing
  identifier (so that no entity is listed twice).
\<close>

definition ascending_ids :: "ratings_dict \<Rightarrow> bool" where
  "ascending_ids d = list_all (\<lambda>(y, l). sorted_wrt (<) (map fst l)) d"

text \<open>
  The invariant of the data model (section 3 of the spec) between the matrix and the
  index \<open>byX\<close>: for every valid \<open>x\<close> the sequence \<open>byX[x]\<close> lists, once each, the
  Y-entities whose entry in row \<open>x\<close> of the matrix is positive; the matrix has a row for
  every valid \<open>x\<close>.
\<close>

definition consistent :: "'a algo_scheme \<Rightarrow> bool" where
  "consistent self =
     (lastXi self < nrows (rm self) \<and>
      list_all (\<lambda>x. distinct (map fst (ratings_of (xr self) x)) \<and>
                    set (map fst (ratings_of (xr self) x)) =
                      set (filter (\<lambda>y. cells (rm self) (x, y) > 0) [0 ..< ncols (rm self)]))
               [1 ..< lastXi self + 1])"

text \<open>
  A relation in which every present rating is \<open>v\<close> and at least one rating is present:
  the positive cells of the matrix are \<open>v\<close>, and the sequences of the valid entities in
  both indexes hold the rating \<open>v\<close> only, for valid entities of the other axis.
\<close>

definition constant_relation :: "'a algo_scheme \<Rightarrow> int \<Rightarrow> bool" where
  "constant_relation self v =
     (list_all (\<lambda>r. r > 0 \<longrightarrow> r = v) (entries (rm self)) \<and>
      list_ex (\<lambda>r. r > 0) (entries (rm self)) \<and>
      list_all (\<lambda>y. list_all (\<lambda>(x, r). r = v \<and> x \<le> lastXi self) (ratings_of (yr self) y))
        [1 ..< lastYi self + 1] \<and>
      list_all (\<lambda>x. list_all (\<lambda>(y, r). r = v \<and> y \<le> lastYi self) (ratings_of (xr self) x))
        [1 ..< lastXi self + 1])"

text \<open>
  The histogram of section 4.4 of the spec in its own words: the relative frequency of
  each rating of 1..5 among the present cells of the whole relation, \<open>x\<close> in \<open>1..lastX\<close>
  and \<open>y\<close> in \<open>1..lastY\<close>.
\<close>

definition whole_histogram :: "'a algo_scheme \<Rightarrow> real list" where
  "whole_histogram self =
     (let present = filter (\<lambda>r. r > 0)
            (concat (map (\<lambda>x. map (\<lambda>y. cells (rm self) (x, y)) [1 ..< lastYi self + 1])
                      [1 ..< lastXi self + 1]))
      in map (\<lambda>v. real (count_list present v) / real (length present)) [1, 2, 3, 4, 5])"

section \<open>Auxiliary definitions of the proofs\<close>

text \<open>The value both loops of a metric write for the pair \<open>(xi, xj)\<close>.\<close>

definition msd_value :: "pairdict \<times> pairdict \<Rightarrow> nat \<Rightarrow> nat \<Rightarrow> real" where
  "msd_value acc xi xj =
     (case acc of (sqDiff, freq) \<Rightarrow>
        if sqDiff (xi, xj) = 0 then real_of_int (freq (xi, xj))
        else real_of_int (freq (xi, xj)) / real_of_int (sqDiff (xi, xj)))"

definition cos_value :: "pairdict \<times> pairdict \<times> pairdict \<times> pairdict \<Rightarrow> nat \<Rightarrow> nat \<Rightarrow> real" where
  "cos_value acc xi xj =
     (case acc of (prods, freq, sqi, sqj) \<Rightarrow>
        if freq (xi, xj) = 0 then 0
        else real_of_int (prods (xi, xj)) / sqrt (real_of_int (sqi (xi, xj) * sqj (xi, xj))))"

text \<open>One round of the outer loop of the two fills: the diagonal, then the inner loop.\<close>

definition fill_row :: "(nat \<Rightarrow> nat \<Rightarrow> real) \<Rightarrow> nat \<Rightarrow> nat list \<Rightarrow> real \<Rightarrow> real ndarray \<Rightarrow> real ndarray" where
  "fill_row w xi js diag M =
     fold (\<lambda>xj M. let M1 = setitem M xi xj (w xi xj) in setitem M1 xj xi (cells M1 (xi, xj)))
          js (setitem M xi xi diag)"

text \<open>
  What a \<^verbatim>\<open>defaultdict\<close> that is incremented by \<open>g r1 r2\<close> at the key \<open>(xi, xj)\<close> holds
  at a key after a list of pairs, and after the whole dictionary.
\<close>

definition pair_sum :: "(int \<Rightarrow> int \<Rightarrow> int) \<Rightarrow> nat \<times> nat \<Rightarrow> ((nat \<times> int) \<times> (nat \<times> int)) list \<Rightarrow> int" where
  "pair_sum g key ps =
     sum_list (map (\<lambda>((xi, r1), (xj, r2)). if (xi, xj) = key then g r1 r2 else 0) ps)"

definition dict_sum :: "(int \<Rightarrow> int \<Rightarrow> int) \<Rightarrow> nat \<times> nat \<Rightarrow> ratings_dict \<Rightarrow> int" where
  "dict_sum g key d = sum_list (map (\<lambda>(y, yRatings). pair_sum g key (combinations2 yRatings)) d)"

section \<open>Concrete rating relations\<close>

text \<open>
  Two users and four movies, user-based (\<^verbatim>\<open>movieBased=False\<close>, so \<open>x\<close> is a user and the
  rating matrix is given movies by users). User 1 rated the movies 1, 2, 3 with 3, 4, 5 and
  user 2 rated them 1, 2, 3; user 2 rated movie 4 with 4.
\<close>

definition scenario_clone :: algo where
  "scenario_clone =
     Algo_init 2 4
       (array_of_rows [[0, 0, 0], [0, 3, 1], [0, 4, 2], [0, 5, 3], [0, 0, 4]])
       [(1, [(1, 3), (2, 4), (3, 5)]), (2, [(1, 1), (2, 2), (3, 3), (4, 4)])]
       [(1, [(1, 3), (2, 1)]), (2, [(1, 4), (2, 2)]), (3, [(1, 5), (2, 3)]), (4, [(2, 4)])]
       False"

text \<open>
  Three users and five movies. User 1 rated the movies 1, 2, 3 with 1, 1, 4 and user 2
  rated them 5, 5, 5; user 2 rated movie 4 with 4; user 3 rated movie 5 only, with 2.
\<close>

definition zero_clone :: algo where
  "zero_clone =
     Algo_init 3 5
       (array_of_rows [[0, 0, 0, 0], [0, 1, 5, 0], [0, 1, 5, 0], [0, 4, 5, 0], [0, 0, 4, 0],
                       [0, 0, 0, 2]])
       [(1, [(1, 1), (2, 1), (3, 4)]), (2, [(1, 5), (2, 5), (3, 5), (4, 4)]), (3, [(5, 2)])]
       [(1, [(1, 1), (2, 5)]), (2, [(1, 1), (2, 5)]), (3, [(1, 4), (2, 5)]), (4, [(2, 4)]),
        (5, [(3, 2)])]
       False"

text \<open>
  Three users and three movies. User 1 rated movie 1 with 1, user 2 rated it 5; user 2
  rated movie 2 with 4; user 3 rated movie 3 only, with 2.
\<close>

definition zero_meandiff :: algo where
  "zero_meandiff =
     Algo_init 3 3
       (array_of_rows [[0, 0, 0, 0], [0, 1, 5, 0], [0, 0, 4, 0], [0, 0, 0, 2]])
       [(1, [(1, 1)]), (2, [(1, 5), (2, 4)]), (3, [(3, 2)])]
       [(1, [(1, 1), (2, 5)]), (2, [(2, 4)]), (3, [(3, 2)])]
       False"

text \<open>
  Four users and four movies. The users 1 and 2 rated the movies 1 and 2 with 5 and 4,
  user 3 rated them 3 and 3, user 4 rated movie 3 with 2; nobody rated movie 4.
\<close>

definition msd_relation :: algo where
  "msd_relation =
     Algo_init 4 4
       (array_of_rows [[0, 0, 0, 0, 0], [0, 5, 5, 3, 0], [0, 4, 4, 3, 0], [0, 0, 0, 0, 2],
                       [0, 0, 0, 0, 0]])
       [(1, [(1, 5), (2, 4)]), (2, [(1, 5), (2, 4)]), (3, [(1, 3), (2, 3)]), (4, [(3, 2)])]
       [(1, [(1, 5), (2, 5), (3, 3)]), (2, [(1, 4), (2, 4), (3, 3)]), (3, [(4, 2)])]
       False"

text \<open>
  Two users who rated movie 1 with 5; the sequence of the movie lists user 2 before
  user 1.
\<close>

definition unsorted_relation :: algo where
  "unsorted_relation =
     Algo_init 2 1
       (array_of_rows [[0, 0, 0], [0, 5, 5]])
       [(1, [(1, 5)]), (2, [(1, 5)])]
       [(1, [(2, 5), (1, 5)])]
       False"

text \<open>
  Two users and three movies. User 1 rated the movies 1, 2, 3 with 2, 3, 3 and user 2
  rated them 5, 2, 2; the sequence of user 2 lists the movies 2, 3, 1 in this order.
\<close>

definition order_relation :: algo where
  "order_relation =
     Algo_init 2 3 (array_of_rows [[0, 0, 0], [0, 2, 5], [0, 3, 2], [0, 3, 2]])
       [(1, [(1, 2), (2, 3), (3, 3)]), (2, [(2, 2), (3, 2), (1, 5)])]
       [(1, [(1, 2), (2, 5)]), (2, [(1, 3), (2, 2)]), (3, [(1, 3), (2, 2)])]
       False"

text \<open>
  One user who rated one movie with 5, and the user-based estimator with the cosine
  metric built on it.
\<close>

definition knn_single :: "error + algoBasicCollaborative" where
  "knn_single =
     AlgoBasicCollaborative_init (\<lambda>_. 0) 1 1 (array_of_rows [[0, 0], [0, 5]])
       [(1, [(1, 5)])] [(1, [(1, 5)])] False ''cos''"

text \<open>The user-based estimator on \<open>msd_relation\<close> with the MSD metric.\<close>

definition knn_msd :: "error + algoBasicCollaborative" where
  "knn_msd =
     ebind (constructSimMat (\<lambda>_. 0) msd_relation ''MSD'') (\<lambda>M.
       Inr (algoUsingSim.extend (algo.extend msd_relation (algoUsingSim.fields M))
              (algoBasicCollaborative.fields 40)))"

text \<open>An object with a baseline above the range of the ratings: 9/2 + 1 + 1/2.\<close>

definition baseline_state :: algoWithBaseline where
  "baseline_state =
     \<lparr>ub = True, rm = array_of_rows [[0, 0], [0, 5]], lastXi = 1, lastYi = 1,
      xr = [(1, [(1, 5)])], yr = [(1, [(1, 5)])], est = 0, preds = [],
      mu = 9 / 2, xBiases = [0, 1], yBiases = [0, 1 / 2]\<rparr>"

text \<open>Two users and two movies; the three present ratings are 3.\<close>

definition constant_relation3 :: algo where
  "constant_relation3 =
     Algo_init 2 2 (array_of_rows [[0, 0, 0], [0, 3, 3], [0, 3, 0]])
       [(1, [(1, 3), (2, 3)]), (2, [(1, 3)])]
       [(1, [(1, 3), (2, 3)]), (2, [(1, 3)])] False"

text \<open>Two users and two movies: user 1 rated movie 1 with 1, user 2 rated movie 2 with 5.\<close>

definition random_relation_rm :: "int ndarray" where
  "random_relation_rm = array_of_rows [[0, 0, 0], [0, 1, 0], [0, 0, 5]]"

section \<open>Properties\<close>

subsection \<open>Exceptions\<close>

lemma ebind_simps [simp]: "ebind (Inl e) f = Inl e" "ebind (Inr v) f = f v"
  by (simp_all add: ebind_def)

lemma ebind_eq_Inr: "ebind m f = Inr r \<longleftrightarrow> (\<exists>v. m = Inr v \<and> f v = Inr r)"
  by (cases m) simp_all

subsection \<open>The two loops that fill the matrix\<close>

lemma cells_setitem [simp]:
  "cells (setitem a i j v) p = (if p = (i, j) then v else cells a p)"
  by (simp add: setitem_def)

lemma shape_setitem [simp]:
  "nrows (setitem a i j v) = nrows a" "ncols (setitem a i j v) = ncols a"
  by (simp_all add: setitem_def)

lemma fill_inner:
  "cells (fold (\<lambda>xj M. let M1 = setitem M xi xj (w xj) in setitem M1 xj xi (cells M1 (xi, xj))) js M) (a, b) =
     (if a = xi \<and> b \<in> set js then w b
      else if b = xi \<and> a \<in> set js then w a
      else cells M (a, b))"
  by (induction js arbitrary: M) (auto simp: Let_def)

lemma fill_row_cells:
  "cells (fill_row w xi js diag M) (a, b) =
     (if a = xi \<and> b \<in> set js then w xi b
      else if b = xi \<and> a \<in> set js then w xi a
      else if a = xi \<and> b = xi then diag
      else cells M (a, b))"
  unfolding fill_row_def by (simp only: fill_inner) auto

lemma fill_row_shape [simp]:
  "nrows (fill_row w xi js diag M) = nrows M" "ncols (fill_row w xi js diag M) = ncols M"
  unfolding fill_row_def by (induction js arbitrary: M rule: rev_induct) (simp_all add: Let_def)

lemma fill_row_fun:
  "fill_row w xi js diag =
     (\<lambda>M. fold (\<lambda>xj M. let M1 = setitem M xi xj (w xi xj) in setitem M1 xj xi (cells M1 (xi, xj)))
            js (setitem M xi xi diag))"
  by (simp add: fun_eq_iff fill_row_def)

lemma fold_rows:
  assumes "\<And>xi M. xi \<in> set xis \<Longrightarrow>
     cells (row xi M) (a, b) = (if min a b = xi \<and> max a b \<le> n then W else cells M (a, b))"
  shows "cells (fold row xis M) (a, b) =
     (if min a b \<in> set xis \<and> max a b \<le> n then W else cells M (a, b))"
  using assms by (induction xis arbitrary: M) auto

lemma fold_rows_shape:
  assumes "\<And>xi M. nrows (row xi M) = nrows M \<and> ncols (row xi M) = ncols M"
  shows "nrows (fold row xis M) = nrows M \<and> ncols (fold row xis M) = ncols M"
  using assms by (induction xis arbitrary: M) auto

lemma if_setitem:
  "(if c then setitem M i j u else setitem M i j v) = setitem M i j (if c then u else v)"
  by simp

lemma constructMSDSimMat_rows:
  "constructMSDSimMat self M0 =
     fold (\<lambda>xi. fill_row (msd_value (msd_accumulate (yr self))) xi [xi ..< lastXi self + 1] 100)
          [1 ..< lastXi self + 1] M0"
proof -
  obtain sqDiff freq where acc: "msd_accumulate (yr self) = (sqDiff, freq)"
    by (cases "msd_accumulate (yr self)")
  show ?thesis
    by (simp add: constructMSDSimMat_def acc msd_value_def fill_row_fun if_setitem
        del: upt_Suc cong: if_cong)
qed

lemma constructCosineSimMat_rows:
  "constructCosineSimMat self M0 =
     fold (\<lambda>xi. fill_row (cos_value (cos_accumulate (yr self))) xi [xi + 1 ..< lastXi self + 1] 1)
          [1 ..< lastXi self + 1] M0"
proof -
  obtain prods freq sqi sqj where acc: "cos_accumulate (yr self) = (prods, freq, sqi, sqj)"
    by (cases "cos_accumulate (yr self)")
  show ?thesis
    by (simp add: constructCosineSimMat_def acc cos_value_def fill_row_fun if_setitem Let_def
        del: upt_Suc cong: if_cong)
qed

text \<open>
  The cells after the fill: the cell \<open>(a, b)\<close> is written when both indices are in
  \<open>1..lastXi\<close>, with the value for the pair in increasing order; every other cell keeps
  what the matrix held before.
\<close>

lemma constructMSDSimMat_cells:
  "cells (constructMSDSimMat self M0) (a, b) =
     (if 1 \<le> min a b \<and> max a b \<le> lastXi self
      then msd_value (msd_accumulate (yr self)) (min a b) (max a b)
      else cells M0 (a, b))"
proof -
  let ?n = "lastXi self"
  let ?row = "\<lambda>xi. fill_row (msd_value (msd_accumulate (yr self))) xi [xi ..< ?n + 1] 100"
  have row: "cells (?row xi M) (a, b) =
       (if min a b = xi \<and> max a b \<le> ?n
        then msd_value (msd_accumulate (yr self)) (min a b) (max a b) else cells M (a, b))"
    if "xi \<in> set [1 ..< ?n + 1]" for xi M
    using that by (simp only: fill_row_cells) (auto simp: min_def max_def)
  show ?thesis
    unfolding constructMSDSimMat_rows
    using fold_rows [of "[1 ..< ?n + 1]" ?row a b ?n, OF row]
    by auto
qed

lemma constructCosineSimMat_cells:
  "cells (constructCosineSimMat self M0) (a, b) =
     (if 1 \<le> min a b \<and> max a b \<le> lastXi self
      then (if a = b then 1 else cos_value (cos_accumulate (yr self)) (min a b) (max a b))
      else cells M0 (a, b))"
proof -
  let ?n = "lastXi self"
  let ?row = "\<lambda>xi. fill_row (cos_value (cos_accumulate (yr self))) xi [xi + 1 ..< ?n + 1] 1"
  have row: "cells (?row xi M) (a, b) =
       (if min a b = xi \<and> max a b \<le> ?n
        then (if a = b then 1 else cos_value (cos_accumulate (yr self)) (min a b) (max a b))
        else cells M (a, b))"
    if "xi \<in> set [1 ..< ?n + 1]" for xi M
    using that by (simp only: fill_row_cells) (auto simp: min_def max_def)
  show ?thesis
    unfolding constructCosineSimMat_rows
    using fold_rows [of "[1 ..< ?n + 1]" ?row a b ?n, OF row]
    by auto
qed

lemma constructMSDSimMat_shape [simp]:
  "nrows (constructMSDSimMat self M0) = nrows M0" "ncols (constructMSDSimMat self M0) = ncols M0"
  unfolding constructMSDSimMat_rows
  using fold_rows_shape [of "\<lambda>xi. fill_row (msd_value (msd_accumulate (yr self))) xi [xi ..< lastXi self + 1] 100"]
  by simp_all

lemma constructCosineSimMat_shape [simp]:
  "nrows (constructCosineSimMat self M0) = nrows M0" "ncols (constructCosineSimMat self M0) = ncols M0"
  unfolding constructCosineSimMat_rows
  using fold_rows_shape [of "\<lambda>xi. fill_row (cos_value (cos_accumulate (yr self))) xi [xi + 1 ..< lastXi self + 1] 1"]
  by simp_all

lemma similarity_cos:
  assumes "i \<le> lastXi self" and "j \<le> lastXi self"
  shows "similarity uninit self ''cos'' i j =
     Inr (if 1 \<le> min i j
          then (if i = j then 1 else cos_value (cos_accumulate (yr self)) (min i j) (max i j))
          else uninit (i, j))"
  using assms
  by (simp add: similarity_def constructSimMat_def item_def np_empty_def
      constructCosineSimMat_cells)

lemma similarity_MSD:
  assumes "i \<le> lastXi self" and "j \<le> lastXi self"
  shows "similarity uninit self ''MSD'' i j =
     Inr (if 1 \<le> min i j then msd_value (msd_accumulate (yr self)) (min i j) (max i j)
          else uninit (i, j))"
  using assms
  by (simp add: similarity_def constructSimMat_def item_def np_empty_def
      constructMSDSimMat_cells)

lemma similarity_MSDClone:
  assumes "i \<le> lastXi self" and "j \<le> lastXi self"
  shows "similarity uninit self ''MSDClone'' i j = Inr (uninit (i, j))"
  using assms
  by (simp add: similarity_def constructSimMat_def item_def np_empty_def)

subsection \<open>The accumulators\<close>

lemma pair_sum_Nil [simp]: "pair_sum g key [] = 0"
  by (simp add: pair_sum_def)

lemma pair_sum_Cons [simp]:
  "pair_sum g key (((xi, r1), (xj, r2)) # ps) =
     (if (xi, xj) = key then g r1 r2 else 0) + pair_sum g key ps"
  by (simp add: pair_sum_def)

lemma pair_sum_append [simp]:
  "pair_sum g key (ps @ qs) = pair_sum g key ps + pair_sum g key qs"
  by (simp add: pair_sum_def)

lemma msd_inner_fold:
  "fold (\<lambda>((xi, r1), (xj, r2)) (sqDiff, freq).
           (sqDiff((xi, xj) := sqDiff (xi, xj) + (r1 - r2)\<^sup>2),
            freq((xi, xj) := freq (xi, xj) + 1))) ps (D, F) =
     (\<lambda>key. D key + pair_sum (\<lambda>r1 r2. (r1 - r2)\<^sup>2) key ps,
      \<lambda>key. F key + pair_sum (\<lambda>r1 r2. 1) key ps)"
proof (induction ps arbitrary: D F)
  case Nil
  show ?case by simp
next
  case (Cons p ps)
  obtain xi r1 xj r2 where p: "p = ((xi, r1), (xj, r2))"
    by (metis surj_pair)
  let ?step = "\<lambda>((xi, r1), (xj, r2)) (sqDiff, freq).
           (sqDiff((xi, xj) := sqDiff (xi, xj) + (r1 - r2)\<^sup>2),
            freq((xi, xj) := freq (xi, xj) + (1::int)))"
  have "fold ?step (p # ps) (D, F) =
          fold ?step ps (D((xi, xj) := D (xi, xj) + (r1 - r2)\<^sup>2), F((xi, xj) := F (xi, xj) + 1))"
    by (simp only: p fold_Cons comp_apply prod.case)
  also have "\<dots> = (\<lambda>key. (D((xi, xj) := D (xi, xj) + (r1 - r2)\<^sup>2)) key
                          + pair_sum (\<lambda>r1 r2. (r1 - r2)\<^sup>2) key ps,
                    \<lambda>key. (F((xi, xj) := F (xi, xj) + 1)) key + pair_sum (\<lambda>r1 r2. 1) key ps)"
    by (rule Cons.IH)
  also have "\<dots> = (\<lambda>key. D key + pair_sum (\<lambda>r1 r2. (r1 - r2)\<^sup>2) key (p # ps),
                    \<lambda>key. F key + pair_sum (\<lambda>r1 r2. 1) key (p # ps))"
    by (auto simp: p fun_eq_iff)
  finally show ?case .
qed

lemma msd_outer_fold:
  "fold (\<lambda>(y, yRatings).
           fold (\<lambda>((xi, r1), (xj, r2)) (sqDiff, freq).
                   (sqDiff((xi, xj) := sqDiff (xi, xj) + (r1 - r2)\<^sup>2),
                    freq((xi, xj) := freq (xi, xj) + 1)))
                (combinations2 yRatings)) d (D, F) =
     (\<lambda>key. D key + dict_sum (\<lambda>r1 r2. (r1 - r2)\<^sup>2) key d,
      \<lambda>key. F key + dict_sum (\<lambda>r1 r2. 1) key d)"
proof (induction d arbitrary: D F)
  case Nil
  show ?case by (simp add: dict_sum_def)
next
  case (Cons e d)
  obtain y l where e: "e = (y, l)" by (cases e)
  let ?step = "\<lambda>((xi, r1), (xj, r2)) (sqDiff, freq).
           (sqDiff((xi, xj) := sqDiff (xi, xj) + (r1 - r2)\<^sup>2),
            freq((xi, xj) := freq (xi, xj) + (1::int)))"
  let ?outer = "\<lambda>(y, yRatings). fold ?step (combinations2 yRatings)"
  have "fold ?outer (e # d) (D, F) = fold ?outer d (fold ?step (combinations2 l) (D, F))"
    by (simp only: e fold_Cons comp_apply prod.case)
  also have "\<dots> = fold ?outer d
       (\<lambda>key. D key + pair_sum (\<lambda>r1 r2. (r1 - r2)\<^sup>2) key (combinations2 l),
        \<lambda>key. F key + pair_sum (\<lambda>r1 r2. 1) key (combinations2 l))"
    by (simp only: msd_inner_fold)
  also have "\<dots> =
       (\<lambda>key. D key + pair_sum (\<lambda>r1 r2. (r1 - r2)\<^sup>2) key (combinations2 l)
                + dict_sum (\<lambda>r1 r2. (r1 - r2)\<^sup>2) key d,
        \<lambda>key. F key + pair_sum (\<lambda>r1 r2. 1) key (combinations2 l)
                + dict_sum (\<lambda>r1 r2. 1) key d)"
    by (rule Cons.IH)
  also have "\<dots> = (\<lambda>key. D key + dict_sum (\<lambda>r1 r2. (r1 - r2)\<^sup>2) key (e # d),
                    \<lambda>key. F key + dict_sum (\<lambda>r1 r2. 1) key (e # d))"
    by (simp add: e dict_sum_def fun_eq_iff)
  finally show ?case .
qed

lemma msd_accumulate_eq:
  "msd_accumulate d =
     (\<lambda>key. dict_sum (\<lambda>r1 r2. (r1 - r2)\<^sup>2) key d, \<lambda>key. dict_sum (\<lambda>r1 r2. 1) key d)"
  by (simp add: msd_accumulate_def msd_outer_fold)

lemma cos_inner_fold:
  "fold (\<lambda>((xi, r1), (xj, r2)) (prods, freq, sqi, sqj).
                     (prods((xi, xj) := prods (xi, xj) + r1 * r2),
                      freq((xi, xj) := freq (xi, xj) + 1),
                      sqi((xi, xj) := sqi (xi, xj) + r1\<^sup>2),
                      sqj((xi, xj) := sqj (xi, xj) + r2\<^sup>2))) ps (P, F, A, B) =
     (\<lambda>key. P key + pair_sum (\<lambda>r1 r2. r1 * r2) key ps,
      \<lambda>key. F key + pair_sum (\<lambda>r1 r2. 1) key ps,
      \<lambda>key. A key + pair_sum (\<lambda>r1 r2. r1\<^sup>2) key ps,
      \<lambda>key. B key + pair_sum (\<lambda>r1 r2. r2\<^sup>2) key ps)"
proof (induction ps arbitrary: P F A B)
  case Nil
  show ?case by simp
next
  case (Cons p ps)
  obtain xi r1 xj r2 where p: "p = ((xi, r1), (xj, r2))"
    by (metis surj_pair)
  let ?step = "\<lambda>((xi, r1), (xj, r2)) (prods, freq, sqi, sqj).
                     (prods((xi, xj) := prods (xi, xj) + r1 * r2),
                      freq((xi, xj) := freq (xi, xj) + (1::int)),
                      sqi((xi, xj) := sqi (xi, xj) + r1\<^sup>2),
                      sqj((xi, xj) := sqj (xi, xj) + r2\<^sup>2))"
  have "fold ?step (p # ps) (P, F, A, B) =
          fold ?step ps (P((xi, xj) := P (xi, xj) + r1 * r2), F((xi, xj) := F (xi, xj) + 1),
                         A((xi, xj) := A (xi, xj) + r1\<^sup>2), B((xi, xj) := B (xi, xj) + r2\<^sup>2))"
    by (simp only: p fold_Cons comp_apply prod.case)
  also have "\<dots> =
     (\<lambda>key. (P((xi, xj) := P (xi, xj) + r1 * r2)) key + pair_sum (\<lambda>r1 r2. r1 * r2) key ps,
      \<lambda>key. (F((xi, xj) := F (xi, xj) + 1)) key + pair_sum (\<lambda>r1 r2. 1) key ps,
      \<lambda>key. (A((xi, xj) := A (xi, xj) + r1\<^sup>2)) key + pair_sum (\<lambda>r1 r2. r1\<^sup>2) key ps,
      \<lambda>key. (B((xi, xj) := B (xi, xj) + r2\<^sup>2)) key + pair_sum (\<lambda>r1 r2. r2\<^sup>2) key ps)"
    by (rule Cons.IH)
  also have "\<dots> =
     (\<lambda>key. P key + pair_sum (\<lambda>r1 r2. r1 * r2) key (p # ps),
      \<lambda>key. F key + pair_sum (\<lambda>r1 r2. 1) key (p # ps),
      \<lambda>key. A key + pair_sum (\<lambda>r1 r2. r1\<^sup>2) key (p # ps),
      \<lambda>key. B key + pair_sum (\<lambda>r1 r2. r2\<^sup>2) key (p # ps))"
    by (auto simp: p fun_eq_iff)
  finally show ?case .
qed

lemma cos_outer_fold:
  "fold (\<lambda>(y, yRatings).
             fold (\<lambda>((xi, r1), (xj, r2)) (prods, freq, sqi, sqj).
                     (prods((xi, xj) := prods (xi, xj) + r1 * r2),
                      freq((xi, xj) := freq (xi, xj) + 1),
                      sqi((xi, xj) := sqi (xi, xj) + r1\<^sup>2),
                      sqj((xi, xj) := sqj (xi, xj) + r2\<^sup>2)))
                  (combinations2 yRatings)) d (P, F, A, B) =
     (\<lambda>key. P key + dict_sum (\<lambda>r1 r2. r1 * r2) key d,
      \<lambda>key. F key + dict_sum (\<lambda>r1 r2. 1) key d,
      \<lambda>key. A key + dict_sum (\<lambda>r1 r2. r1\<^sup>2) key d,
      \<lambda>key. B key + dict_sum (\<lambda>r1 r2. r2\<^sup>2) key d)"
proof (induction d arbitrary: P F A B)
  case Nil
  show ?case by (simp add: dict_sum_def)
next
  case (Cons e d)
  obtain y l where e: "e = (y, l)" by (cases e)
  let ?step = "\<lambda>((xi, r1), (xj, r2)) (prods, freq, sqi, sqj).
                     (prods((xi, xj) := prods (xi, xj) + r1 * r2),
                      freq((xi, xj) := freq (xi, xj) + (1::int)),
                      sqi((xi, xj) := sqi (xi, xj) + r1\<^sup>2),
                      sqj((xi, xj) := sqj (xi, xj) + r2\<^sup>2))"
  let ?outer = "\<lambda>(y, yRatings). fold ?step (combinations2 yRatings)"
  have "fold ?outer (e # d) (P, F, A, B) = fold ?outer d (fold ?step (combinations2 l) (P, F, A, B))"
    by (simp only: e fold_Cons comp_apply prod.case)
  also have "\<dots> = fold ?outer d
       (\<lambda>key. P key + pair_sum (\<lambda>r1 r2. r1 * r2) key (combinations2 l),
        \<lambda>key. F key + pair_sum (\<lambda>r1 r2. 1) key (combinations2 l),
        \<lambda>key. A key + pair_sum (\<lambda>r1 r2. r1\<^sup>2) key (combinations2 l),
        \<lambda>key. B key + pair_sum (\<lambda>r1 r2. r2\<^sup>2) key (combinations2 l))"
    by (simp only: cos_inner_fold)
  also have "\<dots> =
       (\<lambda>key. P key + pair_sum (\<lambda>r1 r2. r1 * r2) key (combinations2 l)
                + dict_sum (\<lambda>r1 r2. r1 * r2) key d,
        \<lambda>key. F key + pair_sum (\<lambda>r1 r2. 1) key (combinations2 l)
                + dict_sum (\<lambda>r1 r2. 1) key d,
        \<lambda>key. A key + pair_sum (\<lambda>r1 r2. r1\<^sup>2) key (combinations2 l)
                + dict_sum (\<lambda>r1 r2. r1\<^sup>2) key d,
        \<lambda>key. B key + pair_sum (\<lambda>r1 r2. r2\<^sup>2) key (combinations2 l)
                + dict_sum (\<lambda>r1 r2. r2\<^sup>2) key d)"
    by (rule Cons.IH)
  also have "\<dots> =
     (\<lambda>key. P key + dict_sum (\<lambda>r1 r2. r1 * r2) key (e # d),
      \<lambda>key. F key + dict_sum (\<lambda>r1 r2. 1) key (e # d),
      \<lambda>key. A key + dict_sum (\<lambda>r1 r2. r1\<^sup>2) key (e # d),
      \<lambda>key. B key + dict_sum (\<lambda>r1 r2. r2\<^sup>2) key (e # d))"
    by (simp add: e dict_sum_def fun_eq_iff)
  finally show ?case .
qed

lemma cos_accumulate_eq:
  "cos_accumulate d =
     (\<lambda>key. dict_sum (\<lambda>r1 r2. r1 * r2) key d,
      \<lambda>key. dict_sum (\<lambda>r1 r2. 1) key d,
      \<lambda>key. dict_sum (\<lambda>r1 r2. r1\<^sup>2) key d,
      \<lambda>key. dict_sum (\<lambda>r1 r2. r2\<^sup>2) key d)"
  by (simp add: cos_accumulate_def cos_outer_fold)

text \<open>
  On a sequence in increasing order of identifiers \<^verbatim>\<open>combinations\<close> yields every pair of
  entities once, the smaller identifier first.
\<close>

lemma pair_sum_map_Pair_fresh:
  assumes "i \<noteq> fst a"
  shows "pair_sum g (i, j) (map (Pair a) as) = 0"
  using assms by (induction as) (auto simp: pair_sum_def split: prod.splits)

lemma pair_sum_map_Pair:
  assumes "distinct (map fst as)"
  shows "pair_sum g (i, j) (map (Pair (i, r)) as) =
           (case map_of as j of None \<Rightarrow> 0 | Some r2 \<Rightarrow> g r r2)"
  using assms
proof (induction as)
  case Nil
  show ?case by simp
next
  case (Cons b bs)
  obtain x2 r2 where b: "b = (x2, r2)" by (cases b)
  show ?case
  proof (cases "x2 = j")
    case True
    then have "j \<notin> fst ` set bs" using Cons.prems b by auto
    then have "map_of bs j = None" by (simp add: map_of_eq_None_iff)
    then show ?thesis using Cons b True by simp
  next
    case False
    then show ?thesis using Cons b by simp
  qed
qed

lemma pair_sum_combinations_absent:
  assumes "i \<notin> fst ` set l"
  shows "pair_sum g (i, j) (combinations2 l) = 0"
  using assms
proof (induction l)
  case Nil
  show ?case by simp
next
  case (Cons a as)
  then show ?case by (simp add: pair_sum_map_Pair_fresh)
qed

lemma pair_sum_combinations_sorted:
  assumes "sorted_wrt (<) (map fst l)" and "i < j"
  shows "pair_sum g (i, j) (combinations2 l) =
           (case map_of l i of None \<Rightarrow> 0
            | Some r1 \<Rightarrow> (case map_of l j of None \<Rightarrow> 0 | Some r2 \<Rightarrow> g r1 r2))"
  using assms(1)
proof (induction l)
  case Nil
  show ?case by simp
next
  case (Cons a as)
  obtain x r where a: "a = (x, r)" by (cases a)
  have sorted: "sorted_wrt (<) (map fst as)" and above: "\<forall>y \<in> fst ` set as. x < y"
    using Cons.prems a by auto
  have dist: "distinct (map fst as)"
    using sorted by (simp add: strict_sorted_iff)
  show ?case
  proof (cases "x = i")
    case True
    have "i \<notin> fst ` set as" using above True by auto
    then have "pair_sum g (i, j) (combinations2 as) = 0"
      by (rule pair_sum_combinations_absent)
    then show ?thesis
      using True assms(2) unfolding a
      by (simp add: pair_sum_map_Pair [OF dist] split: option.splits)
  next
    case False
    have fresh: "pair_sum g (i, j) (map (Pair a) as) = 0"
      using False a by (simp add: pair_sum_map_Pair_fresh)
    show ?thesis
    proof (cases "x = j")
      case True
      have "i \<notin> fst ` set as" using above True assms(2) by auto
      then have "map_of as i = None" by (simp add: map_of_eq_None_iff)
      then show ?thesis using fresh Cons.IH [OF sorted] False
        unfolding a by (simp split: option.splits)
    next
      case xj: False
      show ?thesis using fresh Cons.IH [OF sorted] False xj
        unfolding a by (simp split: option.splits)
    qed
  qed
qed

lemma pair_sum_combinations_diagonal:
  assumes "distinct (map fst l)"
  shows "pair_sum g (i, i) (combinations2 l) = 0"
  using assms
proof (induction l)
  case Nil
  show ?case by simp
next
  case (Cons a as)
  obtain x r where a: "a = (x, r)" by (cases a)
  have dist: "distinct (map fst as)" and fresh: "x \<notin> fst ` set as"
    using Cons.prems by (simp_all add: a)
  have "pair_sum g (i, i) (map (Pair a) as) = 0"
  proof (cases "x = i")
    case True
    have "map_of as i = None" using fresh True by (simp add: map_of_eq_None_iff)
    then show ?thesis using True a by (simp add: pair_sum_map_Pair [OF dist])
  next
    case False
    then show ?thesis using a by (simp add: pair_sum_map_Pair_fresh)
  qed
  then show ?case using Cons.IH [OF dist] by simp
qed

lemma fst_set_map_of: "x \<in> fst ` set l \<longleftrightarrow> (\<exists>r. map_of l x = Some r)"
  using map_of_eq_None_iff [of l x] by auto

lemma co_rating_count_commute: "co_rating_count d i j = co_rating_count d j i"
  by (simp add: co_rating_count_def conj_commute)

lemma squared_difference_commute: "squared_difference d i j = squared_difference d j i"
proof -
  have "(case map_of l i of None \<Rightarrow> 0
         | Some r1 \<Rightarrow> (case map_of l j of None \<Rightarrow> 0 | Some r2 \<Rightarrow> (r1 - r2)\<^sup>2)) =
        (case map_of l j of None \<Rightarrow> 0
         | Some r1 \<Rightarrow> (case map_of l i of None \<Rightarrow> (0::int) | Some r2 \<Rightarrow> (r1 - r2)\<^sup>2))"
    for l :: ratings
    by (simp add: power2_commute split: option.splits)
  then show ?thesis by (simp add: squared_difference_def)
qed

lemma dict_sum_sqDiff:
  assumes "ascending_ids d" and "i < j"
  shows "dict_sum (\<lambda>r1 r2. (r1 - r2)\<^sup>2) (i, j) d = squared_difference d i j"
  using assms(1)
proof (induction d)
  case Nil
  show ?case by (simp add: dict_sum_def squared_difference_def)
next
  case (Cons e d)
  obtain y l where e: "e = (y, l)" by (cases e)
  have l: "sorted_wrt (<) (map fst l)" and d: "ascending_ids d"
    using Cons.prems by (simp_all add: e ascending_ids_def)
  have "dict_sum (\<lambda>r1 r2. (r1 - r2)\<^sup>2) (i, j) d = squared_difference d i j"
    using Cons.IH d by simp
  then show ?case
    using pair_sum_combinations_sorted [OF l assms(2), of "\<lambda>r1 r2. (r1 - r2)\<^sup>2"]
    by (simp add: e dict_sum_def squared_difference_def)
qed

lemma dict_sum_freq:
  assumes "ascending_ids d" and "i < j"
  shows "dict_sum (\<lambda>r1 r2. 1) (i, j) d = co_rating_count d i j"
  using assms(1)
proof (induction d)
  case Nil
  show ?case by (simp add: dict_sum_def co_rating_count_def)
next
  case (Cons e d)
  obtain y l where e: "e = (y, l)" by (cases e)
  have l: "sorted_wrt (<) (map fst l)" and d: "ascending_ids d"
    using Cons.prems by (simp_all add: e ascending_ids_def)
  have ih: "dict_sum (\<lambda>r1 r2. 1) (i, j) d = co_rating_count d i j"
    using Cons.IH d by simp
  have "pair_sum (\<lambda>r1 r2. 1) (i, j) (combinations2 l) =
          (if i \<in> fst ` set l \<and> j \<in> fst ` set l then 1 else 0)"
    using pair_sum_combinations_sorted [OF l assms(2), of "\<lambda>r1 r2. 1"]
    by (auto simp: fst_set_map_of split: option.splits)
  then show ?case
    using ih by (simp add: e dict_sum_def co_rating_count_def)
qed

lemma dict_sum_diagonal:
  assumes "ascending_ids d"
  shows "dict_sum g (i, i) d = 0"
  using assms
proof (induction d)
  case Nil
  show ?case by (simp add: dict_sum_def)
next
  case (Cons e d)
  obtain y l where e: "e = (y, l)" by (cases e)
  have l: "distinct (map fst l)" and d: "ascending_ids d"
    using Cons.prems by (simp_all add: e ascending_ids_def strict_sorted_iff)
  have "dict_sum g (i, i) d = 0" using Cons.IH d by simp
  then show ?case
    using pair_sum_combinations_diagonal [OF l, of g i] by (simp add: e dict_sum_def)
qed

lemma squared_difference_agree:
  assumes "ratings_agree d i j"
  shows "squared_difference d i j = 0"
  using assms
proof (induction d)
  case Nil
  show ?case by (simp add: squared_difference_def)
next
  case (Cons e d)
  obtain y l where e: "e = (y, l)" by (cases e)
  have agree: "\<And>r1 r2. (i, r1) \<in> set l \<Longrightarrow> (j, r2) \<in> set l \<Longrightarrow> r1 = r2"
    and d: "ratings_agree d i j"
    using Cons.prems by (auto simp: e ratings_agree_def list_all_iff)
  have "(case map_of l i of None \<Rightarrow> 0
         | Some r1 \<Rightarrow> (case map_of l j of None \<Rightarrow> 0 | Some r2 \<Rightarrow> (r1 - r2)\<^sup>2)) = (0::int)"
    using agree by (auto split: option.splits dest: map_of_SomeD)
  then show ?case
    using Cons.IH [OF d] by (simp add: e squared_difference_def)
qed

lemma squared_difference_no_co_rating:
  assumes "co_rating_count d i j = 0"
  shows "squared_difference d i j = 0"
  using assms
proof (induction d)
  case Nil
  show ?case by (simp add: squared_difference_def)
next
  case (Cons e d)
  obtain y l where e: "e = (y, l)" by (cases e)
  have no: "\<not> (i \<in> fst ` set l \<and> j \<in> fst ` set l)" and d: "co_rating_count d i j = 0"
    using Cons.prems by (auto simp: e co_rating_count_def split: if_splits)
  have "(case map_of l i of None \<Rightarrow> 0
         | Some r1 \<Rightarrow> (case map_of l j of None \<Rightarrow> 0 | Some r2 \<Rightarrow> (r1 - r2)\<^sup>2)) = (0::int)"
    using no by (auto simp: fst_set_map_of split: option.splits)
  then show ?case
    using Cons.IH [OF d] by (simp add: e squared_difference_def)
qed

lemma msd_value_ascending:
  assumes "ascending_ids d" and "i \<noteq> j"
  shows "msd_value (msd_accumulate d) (min i j) (max i j) =
     (if squared_difference d i j = 0 then real_of_int (co_rating_count d i j)
      else real_of_int (co_rating_count d i j) / real_of_int (squared_difference d i j))"
proof -
  have lt: "min i j < max i j" using assms(2) by (simp add: min_def max_def)
  have s: "squared_difference d (min i j) (max i j) = squared_difference d i j"
    using squared_difference_commute [of d i j] by (simp add: min_def max_def)
  have c: "co_rating_count d (min i j) (max i j) = co_rating_count d i j"
    using co_rating_count_commute [of d i j] by (simp add: min_def max_def)
  show ?thesis
    by (simp add: msd_value_def msd_accumulate_eq dict_sum_sqDiff [OF assms(1) lt]
        dict_sum_freq [OF assms(1) lt] s c)
qed

subsection \<open>The concrete relations\<close>

lemma msd_relation_fields:
  "lastXi msd_relation = 4"
  "yr msd_relation = [(1, [(1, 5), (2, 5), (3, 3)]), (2, [(1, 4), (2, 4), (3, 3)]), (3, [(4, 2)])]"
  by (simp_all add: msd_relation_def Algo_init_def)

lemma msd_relation_ascending: "ascending_ids (yr msd_relation)"
  by (simp add: msd_relation_fields ascending_ids_def)

lemma msd_relation_consistent: "consistent msd_relation"
  by code_simp

lemma msd_relation_rm:
  "nrows (rm msd_relation) = 5" "ncols (rm msd_relation) = 5"
  "cells (rm msd_relation) (x, y) =
     [[0, 0, 0, 0, 0], [0, 5, 5, 3, 0], [0, 4, 4, 3, 0], [0, 0, 0, 0, 2], [0, 0, 0, 0, 0]] ! y ! x"
  "ub msd_relation"
  by (simp_all add: msd_relation_def Algo_init_def transpose_array_def array_of_rows_def)

lemma msd_relation_xr:
  "xr msd_relation =
     [(1, [(1, 5), (2, 4)]), (2, [(1, 5), (2, 4)]), (3, [(1, 3), (2, 3)]), (4, [(3, 2)])]"
  by (simp add: msd_relation_def Algo_init_def)

lemma order_fields:
  "xr order_relation = [(1, [(1, 2), (2, 3), (3, 3)]), (2, [(2, 2), (3, 2), (1, 5)])]"
  "nrows (rm order_relation) = 3" "ncols (rm order_relation) = 4"
  "cells (rm order_relation) (x, y) = [[0, 0, 0], [0, 2, 5], [0, 3, 2], [0, 3, 2]] ! y ! x"
  by (simp_all add: order_relation_def Algo_init_def transpose_array_def array_of_rows_def)

lemma order_relation_consistent: "consistent order_relation"
  by code_simp

lemma unsorted_fields:
  "lastXi unsorted_relation = 2" "yr unsorted_relation = [(1, [(2, 5), (1, 5)])]"
  by (simp_all add: unsorted_relation_def Algo_init_def)

subsection \<open>The entries of the MSD matrix\<close>

text \<open>
  When every sequence of \<open>byY\<close> lists its X-entities by increasing identifier, then for
  all distinct valid \<open>i\<close> and \<open>j\<close> the entry \<open>(i, j)\<close> of the MSD matrix is the co-rating
  count when the sum of the squared differences is 0, and the count divided by that sum
  otherwise; it is the count when the two entities agree on every Y-entity both rated,
  and 0 when the count is 0.
\<close>

lemma msd_entry:
  assumes "ascending_ids (yr self)"
    and "1 \<le> i" and "i \<le> lastXi self" and "1 \<le> j" and "j \<le> lastXi self" and "i \<noteq> j"
  shows "cells (constructMSDSimMat self simMat0) (i, j) =
           (if squared_difference (yr self) i j = 0
            then real_of_int (co_rating_count (yr self) i j)
            else real_of_int (co_rating_count (yr self) i j)
                   / real_of_int (squared_difference (yr self) i j)) \<and>
         (ratings_agree (yr self) i j \<longrightarrow>
            cells (constructMSDSimMat self simMat0) (i, j) =
              real_of_int (co_rating_count (yr self) i j)) \<and>
         (co_rating_count (yr self) i j = 0 \<longrightarrow>
            cells (constructMSDSimMat self simMat0) (i, j) = 0)"
proof -
  have entry: "cells (constructMSDSimMat self simMat0) (i, j) =
           (if squared_difference (yr self) i j = 0
            then real_of_int (co_rating_count (yr self) i j)
            else real_of_int (co_rating_count (yr self) i j)
                   / real_of_int (squared_difference (yr self) i j))"
    using assms(2-5) msd_value_ascending [OF assms(1) assms(6)]
    by (simp add: constructMSDSimMat_cells)
  show ?thesis
    using entry squared_difference_agree [of "yr self" i j]
      squared_difference_no_co_rating [of "yr self" i j]
    by simp
qed

text \<open>
  On \<open>msd_relation\<close>: the users 1 and 2 agree on two movies (entry 2), the users 1 and 3
  differ by 2 and 1 on two movies (entry 2 / 5), the users 1 and 4 share no movie (entry 0).
\<close>

lemma msd_entry_on_msd_relation:
  "ascending_ids (yr msd_relation) \<and>
   ratings_agree (yr msd_relation) 1 2 \<and>
   cells (constructMSDSimMat msd_relation (np_empty (\<lambda>_. 0) 5 5)) (1, 2) = 2 \<and>
   cells (constructMSDSimMat msd_relation (np_empty (\<lambda>_. 0) 5 5)) (1, 3) = 2 / 5 \<and>
   co_rating_count (yr msd_relation) 1 4 = 0 \<and>
   cells (constructMSDSimMat msd_relation (np_empty (\<lambda>_. 0) 5 5)) (1, 4) = 0"
proof -
  let ?M = "np_empty (\<lambda>_. 0::real) 5 5"
  have agree: "ratings_agree (yr msd_relation) 1 2"
    by (simp add: msd_relation_fields ratings_agree_def)
  have c12: "co_rating_count (yr msd_relation) 1 2 = 2"
    and c13: "co_rating_count (yr msd_relation) 1 3 = 2"
    and c14: "co_rating_count (yr msd_relation) 1 4 = 0"
    by (simp_all add: msd_relation_fields co_rating_count_def)
  have s13: "squared_difference (yr msd_relation) 1 3 = 5"
    by (simp add: msd_relation_fields squared_difference_def)
  have e12: "cells (constructMSDSimMat msd_relation ?M) (1, 2) = 2"
    using msd_entry [OF msd_relation_ascending, of 1 2 ?M] agree c12
    by (simp add: msd_relation_fields)
  have e13: "cells (constructMSDSimMat msd_relation ?M) (1, 3) = 2 / 5"
    using msd_entry [OF msd_relation_ascending, of 1 3 ?M] c13 s13
    by (simp add: msd_relation_fields)
  have e14: "cells (constructMSDSimMat msd_relation ?M) (1, 4) = 0"
    using msd_entry [OF msd_relation_ascending, of 1 4 ?M] c14
    by (simp add: msd_relation_fields)
  show ?thesis
    using msd_relation_ascending agree e12 e13 c14 e14 by simp
qed

text \<open>
  Claim C2. The entry of the MSD matrix for two distinct valid entities is the co-rating
  count when the squared differences sum to 0, says the claim, for every pair. In
  \<open>unsorted_relation\<close> the one sequence of \<open>byY\<close> lists user 2 before user 1; the two users
  rated the one movie alike (co-rating count 1, squared difference 0) and the entry
  \<open>(1, 2)\<close> is 0, not 1. The pair is accumulated at the key \<open>(2, 1)\<close>, which the fill
  never reads: it reads the keys \<open>(xi, xj)\<close> with \<open>xi \<le> xj\<close> only.
\<close>

theorem msd_entry_depends_on_order:
  "lastXi unsorted_relation = 2 \<and>
   yr unsorted_relation = [(1, [(2, 5), (1, 5)])] \<and>
   co_rating_count (yr unsorted_relation) 1 2 = 1 \<and>
   squared_difference (yr unsorted_relation) 1 2 = 0 \<and>
   cells (constructMSDSimMat unsorted_relation (np_empty (\<lambda>_. 7) 3 3)) (1, 2) = 0 \<and>
   cells (constructMSDSimMat unsorted_relation (np_empty (\<lambda>_. 7) 3 3)) (1, 2) \<noteq>
     real_of_int (co_rating_count (yr unsorted_relation) 1 2) \<and>
   similarity (\<lambda>_. 7) unsorted_relation ''MSD'' 1 2 = Inr 0"
proof -
  have c: "co_rating_count (yr unsorted_relation) 1 2 = 1"
    by (simp add: unsorted_fields co_rating_count_def)
  have s: "squared_difference (yr unsorted_relation) 1 2 = 0"
    by (simp add: unsorted_fields squared_difference_def)
  have e: "cells (constructMSDSimMat unsorted_relation (np_empty (\<lambda>_. 7) 3 3)) (1, 2) = 0"
    by (simp add: constructMSDSimMat_cells unsorted_fields msd_accumulate_eq msd_value_def
        dict_sum_def)
  have r: "similarity (\<lambda>_. 7) unsorted_relation ''MSD'' 1 2 = Inr 0"
    by (simp add: similarity_MSD unsorted_fields msd_accumulate_eq msd_value_def dict_sum_def)
  show ?thesis using c s e r by (simp add: unsorted_fields)
qed

subsection \<open>The diagonal\<close>

lemma cosine_diagonal:
  assumes "1 \<le> i" and "i \<le> lastXi self"
  shows "similarity uninit self ''cos'' i i = Inr 1"
  using assms by (simp add: similarity_cos)

text \<open>
  The inner loop of the MSD fill starts at \<open>xi\<close>, not at \<open>xi + 1\<close> as the cosine fill
  does: it overwrites the 100 of the diagonal with \<open>freq[xi, xi]\<close>, which is 0 when no
  sequence lists an entity twice.
\<close>

lemma MSD_diagonal:
  assumes "ascending_ids (yr self)" and "1 \<le> i" and "i \<le> lastXi self"
  shows "similarity uninit self ''MSD'' i i = Inr 0"
  using assms(2,3)
  by (simp add: similarity_MSD msd_value_def msd_accumulate_eq dict_sum_diagonal [OF assms(1)])

text \<open>
  Claim C3. On \<open>msd_relation\<close>, whatever the allocated matrix held, the diagonal entry of
  user 1 is 1 under the cosine metric and 0 under the MSD metric: the 100 that
  \<^verbatim>\<open>constructMSDSimMat\<close> writes first is overwritten.
\<close>

theorem diagonal_entries:
  "similarity uninit msd_relation ''cos'' 1 1 = Inr 1 \<and>
   similarity uninit msd_relation ''MSD'' 1 1 = Inr 0"
proof -
  have n: "1 \<le> lastXi msd_relation" by (simp add: msd_relation_fields)
  have c: "similarity uninit msd_relation ''cos'' 1 1 = Inr 1"
    using cosine_diagonal [of 1 msd_relation uninit] n by simp
  have m: "similarity uninit msd_relation ''MSD'' 1 1 = Inr 0"
    using MSD_diagonal [OF msd_relation_ascending, of 1 uninit] n by simp
  show ?thesis using c m by simp
qed

subsection \<open>Symmetry\<close>

lemma common_ys_in_range:
  assumes "xj < nrows (rm self)" and "\<forall>y \<in> fst ` set l. y < ncols (rm self)"
  shows "common_ys self xj l = Inr (filter (\<lambda>y. cells (rm self) (xj, y) > 0) (map fst l))"
  using assms(2)
proof (induction l)
  case Nil
  show ?case by simp
next
  case (Cons p l)
  obtain y r where p: "p = (y, r)" by (cases p)
  have "y < ncols (rm self)" and "\<forall>y \<in> fst ` set l. y < ncols (rm self)"
    using Cons.prems by (simp_all add: p)
  then show ?case
    using Cons.IH assms(1) by (simp add: p item_def)
qed

lemma rating_diffs_in_range:
  assumes "xi < nrows (rm self)" and "xj < nrows (rm self)"
    and "\<forall>y \<in> set ys. y < ncols (rm self)"
  shows "rating_diffs self xi xj ys =
           Inr (map (\<lambda>y. cells (rm self) (xi, y) - cells (rm self) (xj, y)) ys)"
  using assms(3) by (induction ys) (simp_all add: item_def assms(1,2))

text \<open>
  Rounding to the nearest double commutes with the change of sign, and so do the rounded
  sum, the rounded mean and the rounded squares of the deviations.
\<close>

lemma float64_minus: "float64 (- x) = - float64 x"
  unfolding float64_def Let_def by (cases "x = 0") simp_all

lemma foldl_float_minus:
  "foldl (\<lambda>s t. float64 (s + t)) (- a) (map uminus ts) = - foldl (\<lambda>s t. float64 (s + t)) a ts"
proof (induction ts arbitrary: a)
  case Nil
  show ?case by simp
next
  case (Cons t ts)
  have step: "float64 (- a + - t) = - float64 (a + t)"
    by (metis float64_minus minus_add_distrib)
  show ?case
    by (simp only: list.map foldl_Cons step Cons.IH)
qed

lemma float_sum_minus: "float_sum (map uminus ts) = - float_sum ts"
  using foldl_float_minus [of 0 ts] by (simp add: float_sum_def)

lemma np_mean64_minus:
  "np_mean64 (map uminus ds) = (case np_mean64 ds of Inl e \<Rightarrow> Inl e | Inr m \<Rightarrow> Inr (- m))"
proof -
  have "map (\<lambda>d. float64 (of_int d)) (map uminus ds) = map uminus (map (\<lambda>d. float64 (of_int d)) ds)"
    by (simp add: float64_minus comp_def)
  then have "float_sum (map (\<lambda>d. float64 (of_int d)) (map uminus ds)) =
             - float_sum (map (\<lambda>d. float64 (of_int d)) ds)"
    by (simp only: float_sum_minus)
  then show ?thesis
    using float64_minus [of "float_sum (map (\<lambda>d. float64 (of_int d)) ds) / float64 (real (length ds))"]
    by (simp add: np_mean64_def)
qed

lemma squares_minus:
  "map (\<lambda>d. float64 ((float64 (float64 (of_int d) + m))\<^sup>2)) (map uminus ds) =
   map (\<lambda>d. float64 ((float64 (float64 (of_int d) - m))\<^sup>2)) ds"
proof -
  have "float64 (float64 (of_int (- d)) + m) = - float64 (float64 (of_int d) - m)" for d :: int
    using float64_minus [of "float64 (of_int d) - m"] float64_minus [of "of_int d"] by simp
  then show ?thesis by (simp add: comp_def)
qed

lemma ratings_of_ascending:
  assumes "ascending_ids d"
  shows "sorted_wrt (<) (map fst (ratings_of d x))"
proof (cases "map_of d x")
  case None
  then show ?thesis by (simp add: ratings_of_def)
next
  case (Some l)
  then have "(x, l) \<in> set d" by (rule map_of_SomeD)
  then show ?thesis
    using assms Some by (auto simp: ratings_of_def ascending_ids_def list_all_iff)
qed

lemma simMSDClone_symmetric:
  assumes "consistent self" and "ascending_ids (xr self)"
    and "1 \<le> xi" and "xi \<le> lastXi self" and "1 \<le> xj" and "xj \<le> lastXi self"
  shows "simMSDClone self xi xj = simMSDClone self xj xi \<and>
         (\<exists>s. simMSDClone self xi xj = Inr s)"
proof -
  let ?li = "map fst (ratings_of (xr self) xi)"
  let ?lj = "map fst (ratings_of (xr self) xj)"
  define Y where "Y = filter (\<lambda>y. cells (rm self) (xj, y) > 0) ?li"
  define Y' where "Y' = filter (\<lambda>y. cells (rm self) (xi, y) > 0) ?lj"
  define ds where "ds = map (\<lambda>y. cells (rm self) (xi, y) - cells (rm self) (xj, y)) Y"
  have rows: "xi < nrows (rm self)" "xj < nrows (rm self)"
    using assms by (simp_all add: consistent_def)
  have mem: "xi \<in> set [1 ..< lastXi self + 1]" "xj \<in> set [1 ..< lastXi self + 1]"
    using assms(3-6) by auto
  have si: "set ?li = set (filter (\<lambda>y. cells (rm self) (xi, y) > 0) [0 ..< ncols (rm self)])"
    and sj: "set ?lj = set (filter (\<lambda>y. cells (rm self) (xj, y) > 0) [0 ..< ncols (rm self)])"
    using assms(1) mem unfolding consistent_def list_all_iff by blast+
  have sorted_i: "sorted_wrt (<) ?li" and sorted_j: "sorted_wrt (<) ?lj"
    using ratings_of_ascending [OF assms(2)] by blast+
  have range_i: "\<forall>y \<in> fst ` set (ratings_of (xr self) xi). y < ncols (rm self)"
    and range_j: "\<forall>y \<in> fst ` set (ratings_of (xr self) xj). y < ncols (rm self)"
    using si sj by auto
  have cy: "common_ys self xj (ratings_of (xr self) xi) = Inr Y"
    unfolding Y_def using common_ys_in_range [OF rows(2) range_i] .
  have cy': "common_ys self xi (ratings_of (xr self) xj) = Inr Y'"
    unfolding Y'_def using common_ys_in_range [OF rows(1) range_j] .
  have "sorted Y" "distinct Y" "sorted Y'" "distinct Y'"
    using sorted_i sorted_j unfolding Y_def Y'_def
    by (simp_all add: strict_sorted_iff sorted_wrt_filter)
  moreover have "set Y = set Y'"
    unfolding Y_def Y'_def using si sj by auto
  ultimately have same: "Y' = Y"
    using sorted_distinct_set_unique by blast
  have in_range: "\<forall>y \<in> set Y. y < ncols (rm self)"
    unfolding Y_def using range_i by auto
  have d: "rating_diffs self xi xj Y = Inr ds"
    unfolding ds_def using rating_diffs_in_range [OF rows in_range] .
  have d': "rating_diffs self xj xi Y = Inr (map uminus ds)"
    unfolding ds_def using rating_diffs_in_range [OF rows(2,1) in_range] by (simp add: comp_def)
  show ?thesis
  proof (cases "Y = []")
    case True
    then show ?thesis by (simp add: simMSDClone_def cy cy' same)
  next
    case False
    then have ne: "ds \<noteq> []" by (simp add: ds_def)
    then obtain m where m: "np_mean64 ds = Inr m" by (simp add: np_mean64_def)
    then have m': "np_mean64 (map uminus ds) = Inr (- m)" by (simp add: np_mean64_minus)
    show ?thesis
      using False
      by (simp add: simMSDClone_def cy cy' same d d' m m' squares_minus Let_def del: map_map)
  qed
qed

lemma simMSDClone_eval:
  assumes "common_ys self xj (ratings_of (xr self) xi) = Inr Y" and "Y \<noteq> []"
    and "rating_diffs self xi xj Y = Inr ds"
    and "np_mean64 ds = Inr m"
    and "float_sum (map (\<lambda>d. float64 ((float64 (float64 (of_int d) - m))\<^sup>2)) ds) = v"
    and "v \<noteq> 0"
    and "float64 (float64 (real (length Y)) / v) = r"
  shows "simMSDClone self xi xj = Inr r"
  using assms(2,6) unfolding simMSDClone_def assms(1) ebind_simps
  by (simp only: if_False assms(3,4,5,7) ebind_simps Let_def)

text \<open>
  The two similarities on \<open>order_relation\<close>: the differences are \<open>-3, 1, 1\<close> in the order
  of the sequence of user 1 and \<open>-1, -1, 3\<close> in the order of that of user 2. The rounded
  mean is the double next to \<open>1/3\<close> in absolute value both times, but the rounded sums of
  the rounded squares differ in their last bit.
\<close>

lemma order_12: "simMSDClone order_relation 1 2 = Inr (5066549580791807 / 18014398509481984)"
proof (rule simMSDClone_eval [where Y = "[1, 2, 3]" and ds = "[- 3, 1, 1]"
      and m = "- (6004799503160661 / 18014398509481984)"
      and v = "3002399751580331 / 281474976710656"])
  show "common_ys order_relation 2 (ratings_of (xr order_relation) 1) = Inr [1, 2, 3]"
    by (simp add: order_fields ratings_of_def item_def)
  show "rating_diffs order_relation 1 2 [1, 2, 3] = Inr [- 3, 1, 1]"
    by (simp add: order_fields item_def)
  show "np_mean64 [- 3, 1, 1] = Inr (- (6004799503160661 / 18014398509481984))"
    by code_simp
  show "float_sum (map (\<lambda>d. float64 ((float64 (float64 (real_of_int d)
          - - (6004799503160661 / 18014398509481984)))\<^sup>2)) [- 3, 1, 1]) =
        3002399751580331 / 281474976710656"
    by code_simp
  show "float64 (float64 (real (length [1::nat, 2, 3])) / (3002399751580331 / 281474976710656)) =
          5066549580791807 / 18014398509481984"
    by code_simp
qed simp_all

lemma order_21: "simMSDClone order_relation 2 1 = Inr (9 / 32)"
proof (rule simMSDClone_eval [where Y = "[2, 3, 1]" and ds = "[- 1, - 1, 3]"
      and m = "6004799503160661 / 18014398509481984"
      and v = "6004799503160661 / 562949953421312"])
  show "common_ys order_relation 1 (ratings_of (xr order_relation) 2) = Inr [2, 3, 1]"
    by (simp add: order_fields ratings_of_def item_def)
  show "rating_diffs order_relation 2 1 [2, 3, 1] = Inr [- 1, - 1, 3]"
    by (simp add: order_fields item_def)
  show "np_mean64 [- 1, - 1, 3] = Inr (6004799503160661 / 18014398509481984)"
    by code_simp
  show "float_sum (map (\<lambda>d. float64 ((float64 (float64 (real_of_int d)
          - 6004799503160661 / 18014398509481984))\<^sup>2)) [- 1, - 1, 3]) =
        6004799503160661 / 562949953421312"
    by code_simp
  show "float64 (float64 (real (length [2::nat, 3, 1])) / (6004799503160661 / 562949953421312)) =
          9 / 32"
    by code_simp
qed simp_all

lemma msd_relation_13: "simMSDClone msd_relation 1 3 = Inr 4"
proof (rule simMSDClone_eval [where Y = "[1, 2]" and ds = "[2, 1]" and m = "3 / 2" and v = "1 / 2"])
  show "common_ys msd_relation 3 (ratings_of (xr msd_relation) 1) = Inr [1, 2]"
    by (simp add: msd_relation_rm msd_relation_xr ratings_of_def item_def)
  show "rating_diffs msd_relation 1 3 [1, 2] = Inr [2, 1]"
    by (simp add: msd_relation_rm item_def)
  show "np_mean64 [2, 1] = Inr (3 / 2)"
    by code_simp
  show "float_sum (map (\<lambda>d. float64 ((float64 (float64 (real_of_int d) - 3 / 2))\<^sup>2)) [2, 1]) = 1 / 2"
    by code_simp
  show "float64 (float64 (real (length [1::nat, 2])) / (1 / 2)) = 4"
    by code_simp
qed simp_all

lemma msd_relation_31: "simMSDClone msd_relation 3 1 = Inr 4"
proof (rule simMSDClone_eval [where Y = "[1, 2]" and ds = "[- 2, - 1]" and m = "- (3 / 2)"
      and v = "1 / 2"])
  show "common_ys msd_relation 1 (ratings_of (xr msd_relation) 3) = Inr [1, 2]"
    by (simp add: msd_relation_rm msd_relation_xr ratings_of_def item_def)
  show "rating_diffs msd_relation 3 1 [1, 2] = Inr [- 2, - 1]"
    by (simp add: msd_relation_rm item_def)
  show "np_mean64 [- 2, - 1] = Inr (- (3 / 2))"
    by code_simp
  show "float_sum (map (\<lambda>d. float64 ((float64 (float64 (real_of_int d) - - (3 / 2)))\<^sup>2))
          [- 2, - 1]) = 1 / 2"
    by code_simp
  show "float64 (float64 (real (length [1::nat, 2])) / (1 / 2)) = 4"
    by code_simp
qed simp_all

text \<open>
  Claim C4, amended. For all valid \<open>i\<close> and \<open>j\<close> the reads \<open>(i, j)\<close> and \<open>(j, i)\<close> of the
  cosine matrix return the same value, and so do those of the MSD matrix; and on a
  relation whose index \<open>byX\<close> is consistent with its matrix and lists the Y-entities of
  every sequence by increasing identifier, \<^verbatim>\<open>simMSDClone\<close> returns the same value for
  \<open>(i, j)\<close> and \<open>(j, i)\<close>. None of them raises.
\<close>

theorem similarity_symmetric:
  assumes "1 \<le> i" and "i \<le> lastXi self" and "1 \<le> j" and "j \<le> lastXi self"
  shows "(\<exists>c. similarity uninit self ''cos'' i j = Inr c \<and>
              similarity uninit self ''cos'' j i = Inr c) \<and>
         (\<exists>m. similarity uninit self ''MSD'' i j = Inr m \<and>
              similarity uninit self ''MSD'' j i = Inr m) \<and>
         (consistent self \<and> ascending_ids (xr self) \<longrightarrow>
            (\<exists>s. simMSDClone self i j = Inr s \<and> simMSDClone self j i = Inr s))"
proof -
  have mm: "min j i = min i j" "max j i = max i j" by (simp_all add: min_def max_def)
  have c: "similarity uninit self ''cos'' j i = similarity uninit self ''cos'' i j"
    using assms by (auto simp: similarity_cos mm)
  have m: "similarity uninit self ''MSD'' j i = similarity uninit self ''MSD'' i j"
    using assms by (simp add: similarity_MSD mm)
  have s: "\<exists>s. simMSDClone self i j = Inr s \<and> simMSDClone self j i = Inr s"
    if "consistent self" and "ascending_ids (xr self)"
  proof -
    from simMSDClone_symmetric [OF that assms] obtain v where
      "simMSDClone self i j = simMSDClone self j i" and "simMSDClone self i j = Inr v"
      by blast
    then have "simMSDClone self i j = Inr v \<and> simMSDClone self j i = Inr v"
      by simp
    then show ?thesis ..
  qed
  show ?thesis
    using c m s assms by (simp add: similarity_cos similarity_MSD)
qed

text \<open>
  On \<open>msd_relation\<close> and the users 1 and 3: MSD similarity 2 / 5, MSD-with-clone
  similarity 2 / (1 / 2) = 4 and cosine similarity 27 / sqrt (41 * 18), both ways.
\<close>

theorem similarity_symmetric_witness:
  "consistent msd_relation \<and> ascending_ids (xr msd_relation) \<and>
   similarity (\<lambda>_. 0) msd_relation ''MSD'' 1 3 = Inr (2 / 5) \<and>
   similarity (\<lambda>_. 0) msd_relation ''MSD'' 3 1 = Inr (2 / 5) \<and>
   simMSDClone msd_relation 1 3 = Inr 4 \<and>
   simMSDClone msd_relation 3 1 = Inr 4 \<and>
   similarity (\<lambda>_. 0) msd_relation ''cos'' 1 3 = Inr (27 / sqrt 738) \<and>
   similarity (\<lambda>_. 0) msd_relation ''cos'' 3 1 = Inr (27 / sqrt 738)"
proof -
  have valid: "(1::nat) \<le> 1" "1 \<le> lastXi msd_relation" "(1::nat) \<le> 3" "3 \<le> lastXi msd_relation"
    by (simp_all add: msd_relation_fields)
  note sym = similarity_symmetric [OF valid, of "\<lambda>_. 0"]
  have asc: "ascending_ids (xr msd_relation)"
    by (simp add: msd_relation_xr ascending_ids_def)
  have m13: "similarity (\<lambda>_. 0) msd_relation ''MSD'' 1 3 = Inr (2 / 5)"
    using valid
    by (simp add: similarity_MSD msd_relation_fields msd_accumulate_eq msd_value_def dict_sum_def)
  have c13: "similarity (\<lambda>_. 0) msd_relation ''cos'' 1 3 = Inr (27 / sqrt 738)"
    using valid
    by (simp add: similarity_cos msd_relation_fields cos_accumulate_eq cos_value_def dict_sum_def)
  show ?thesis
    using sym msd_relation_consistent asc m13 msd_relation_13 msd_relation_31 c13 by auto
qed

text \<open>
  Without the order of \<open>byX\<close> the two values of \<^verbatim>\<open>simMSDClone\<close> can differ: on
  \<open>order_relation\<close>, which is consistent, the similarity of the users 1 and 2 is the
  double below 9 / 32 and that of the users 2 and 1 is 9 / 32
  (0.28124999999999994 and 0.28125).
\<close>

theorem simMSDClone_not_symmetric:
  "consistent order_relation \<and> lastXi order_relation = 2 \<and>
   simMSDClone order_relation 1 2 = Inr (5066549580791807 / 18014398509481984) \<and>
   simMSDClone order_relation 2 1 = Inr (9 / 32) \<and>
   simMSDClone order_relation 1 2 \<noteq> simMSDClone order_relation 2 1"
proof -
  have n: "lastXi order_relation = 2"
    by (simp add: order_relation_def Algo_init_def)
  show ?thesis
    using order_relation_consistent n order_12 order_21 by simp
qed

subsection \<open>Building the matrix twice\<close>

text \<open>
  Claim C9, amended. For the metrics \<^verbatim>\<open>'cos'\<close> and \<^verbatim>\<open>'MSD'\<close>, two builds from the same
  relation return matrices of the same shape whose cells \<open>(i, j)\<close> are equal for all valid
  \<open>i\<close> and \<open>j\<close>, whatever the two allocated buffers held; reading such a cell does not
  raise.
\<close>

theorem build_deterministic_on_valid_cells:
  assumes "sim = ''cos'' \<or> sim = ''MSD''"
    and "1 \<le> i" and "i \<le> lastXi self" and "1 \<le> j" and "j \<le> lastXi self"
  shows "\<exists>M1 M2. constructSimMat uninit1 self sim = Inr M1 \<and>
                 constructSimMat uninit2 self sim = Inr M2 \<and>
                 nrows M1 = nrows M2 \<and> ncols M1 = ncols M2 \<and>
                 cells M1 (i, j) = cells M2 (i, j) \<and>
                 item M1 i j = Inr (cells M1 (i, j))"
  using assms
  by (auto simp: constructSimMat_def np_empty_def constructCosineSimMat_cells
      constructMSDSimMat_cells item_def)

theorem build_deterministic_witness:
  "\<exists>M1 M2. constructSimMat (\<lambda>_. 0) msd_relation ''MSD'' = Inr M1 \<and>
           constructSimMat (\<lambda>_. 1) msd_relation ''MSD'' = Inr M2 \<and>
           nrows M1 = nrows M2 \<and> ncols M1 = ncols M2 \<and>
           cells M1 (1, 3) = cells M2 (1, 3) \<and>
           item M1 1 3 = Inr (cells M1 (1, 3))"
proof -
  have valid: "(1::nat) \<le> 1" "1 \<le> lastXi msd_relation" "(1::nat) \<le> 3" "3 \<le> lastXi msd_relation"
    by (simp_all add: msd_relation_fields)
  have sim: "''MSD'' = ''cos'' \<or> ''MSD'' = ''MSD''" by simp
  show ?thesis
    using build_deterministic_on_valid_cells [OF sim valid, of "\<lambda>_. 0" "\<lambda>_. 1"] .
qed

text \<open>
  The matrices themselves differ when the allocated buffers do: the fills never write row
  0 and column 0, and for \<^verbatim>\<open>'MSDClone'\<close> no cell is written.
\<close>

theorem build_not_deterministic:
  "constructSimMat (\<lambda>_. 0) msd_relation ''MSDClone'' \<noteq>
     constructSimMat (\<lambda>_. 1) msd_relation ''MSDClone'' \<and>
   constructSimMat (\<lambda>_. 0) msd_relation ''cos'' \<noteq>
     constructSimMat (\<lambda>_. 1) msd_relation ''cos'' \<and>
   constructSimMat (\<lambda>_. 0) msd_relation ''MSD'' \<noteq>
     constructSimMat (\<lambda>_. 1) msd_relation ''MSD''"
proof -
  have neq: "M1 \<noteq> M2" if "cells M1 (0, 0) \<noteq> cells M2 (0, 0)" for M1 M2 :: "real ndarray"
    using that by auto
  have a: "constructSimMat (\<lambda>_. 0) msd_relation ''MSDClone'' \<noteq>
     constructSimMat (\<lambda>_. 1) msd_relation ''MSDClone''"
    by (simp add: constructSimMat_def np_empty_def fun_eq_iff)
  have b: "constructSimMat (\<lambda>_. 0) msd_relation ''cos'' \<noteq>
     constructSimMat (\<lambda>_. 1) msd_relation ''cos''"
    by (simp add: constructSimMat_def np_empty_def neq constructCosineSimMat_cells)
  have c: "constructSimMat (\<lambda>_. 0) msd_relation ''MSD'' \<noteq>
     constructSimMat (\<lambda>_. 1) msd_relation ''MSD''"
    by (simp add: constructSimMat_def np_empty_def neq constructMSDSimMat_cells)
  show ?thesis using a b c by simp
qed

subsection \<open>AlgoBasicCollaborative\<close>

lemma simX0_list_nobody:
  assumes "y0 < ncols (rm self)"
    and "\<forall>x \<in> set xs. x < nrows (rm self) \<and> cells (rm self) (x, y0) \<le> 0"
  shows "simX0_list self x0 y0 xs = Inr []"
  using assms(2) by (induction xs) (simp_all add: item_def assms(1))

lemma simX0_list_rated:
  assumes "simX0_list self x0 y0 xs = Inr simX0" and "(x, s) \<in> set simX0"
  shows "\<exists>r. item (rm self) x y0 = Inr r"
  using assms
proof (induction xs arbitrary: simX0)
  case Nil
  then show ?case by simp
next
  case (Cons x' xs)
  from Cons.prems(1) obtain r where r: "item (rm self) x' y0 = Inr r"
    by (auto simp: ebind_eq_Inr)
  show ?case
  proof (cases "r > 0")
    case True
    with Cons.prems(1) r obtain s' rest where
      "simX0_list self x0 y0 xs = Inr rest" and "simX0 = (x', s') # rest"
      by (auto simp: ebind_eq_Inr)
    then show ?thesis using Cons.IH [of rest] Cons.prems(2) r by auto
  next
    case False
    then show ?thesis using Cons.IH [of simX0] Cons.prems r by simp
  qed
qed

lemma ratNeighboors_total:
  assumes "\<forall>(x, s) \<in> set nbs. \<exists>r. item (rm self) x y0 = Inr r"
  shows "\<exists>rats. ratNeighboors self y0 nbs = Inr rats"
  using assms by (induction nbs) auto

lemma set_sorted_reverse [simp]: "set (sorted_reverse key l) = set l"
  by (simp add: sorted_reverse_def)

text \<open>
  Claim C1, amended. When no entity at all has rated \<open>y0\<close> (the entity \<open>x0\<close> included),
  the estimate is the sentinel 0; and whenever the list of neighbours is built without an
  index error and the similarities of the selected neighbours sum to 0, the estimate is
  the sentinel 0 too: the ZeroDivisionError of \<^verbatim>\<open>np.average\<close> is caught, nothing is raised.
\<close>

theorem knn_impossible:
  assumes "getx0y0 self u0 m0 = (x0, y0)"
  shows "(lastXi self < nrows (rm self) \<and> y0 < ncols (rm self) \<and>
          (\<forall>x \<in> set [1 ..< lastXi self + 1]. cells (rm self) (x, y0) \<le> 0) \<longrightarrow>
            AlgoBasicCollaborative_estimate self u0 m0 = Inr (self\<lparr>est := 0\<rparr>)) \<and>
         (\<forall>simX0. simX0_list self x0 y0 [1 ..< lastXi self + 1] = Inr simX0 \<and>
            sum_list (map snd (take (k self) (sorted_reverse snd simX0))) = 0 \<longrightarrow>
            AlgoBasicCollaborative_estimate self u0 m0 = Inr (self\<lparr>est := 0\<rparr>))"
proof (intro conjI impI allI)
  assume a: "lastXi self < nrows (rm self) \<and> y0 < ncols (rm self) \<and>
          (\<forall>x \<in> set [1 ..< lastXi self + 1]. cells (rm self) (x, y0) \<le> 0)"
  then have "\<forall>x \<in> set [1 ..< lastXi self + 1]. x < nrows (rm self) \<and> cells (rm self) (x, y0) \<le> 0"
    by auto
  then have "simX0_list self x0 y0 [1 ..< lastXi self + 1] = Inr []"
    using a simX0_list_nobody by blast
  then show "AlgoBasicCollaborative_estimate self u0 m0 = Inr (self\<lparr>est := 0\<rparr>)"
    using assms by (simp add: AlgoBasicCollaborative_estimate_def)
next
  fix simX0
  assume a: "simX0_list self x0 y0 [1 ..< lastXi self + 1] = Inr simX0 \<and>
            sum_list (map snd (take (k self) (sorted_reverse snd simX0))) = 0"
  let ?nbs = "take (k self) (sorted_reverse snd simX0)"
  have "set ?nbs \<subseteq> set simX0"
    using set_take_subset [of "k self" "sorted_reverse snd simX0"] by simp
  then have "\<forall>(x, s) \<in> set ?nbs. \<exists>r. item (rm self) x y0 = Inr r"
    using simX0_list_rated a by blast
  then obtain rats where rats: "ratNeighboors self y0 ?nbs = Inr rats"
    using ratNeighboors_total by blast
  have avg: "np_average rats (map snd ?nbs) = Inl ZeroDivisionError"
    using a by (simp add: np_average_def)
  show "AlgoBasicCollaborative_estimate self u0 m0 = Inr (self\<lparr>est := 0\<rparr>)"
    using assms a rats avg by (simp add: AlgoBasicCollaborative_estimate_def Let_def)
qed


lemma extend_fields [simp]:
  "lastXi (algo.extend a f) = lastXi a" "rm (algo.extend a f) = rm a"
  "yr (algo.extend a f) = yr a" "xr (algo.extend a f) = xr a" "ub (algo.extend a f) = ub a"
  "lastXi (algoUsingSim.extend b g) = lastXi b" "rm (algoUsingSim.extend b g) = rm b"
  "yr (algoUsingSim.extend b g) = yr b" "xr (algoUsingSim.extend b g) = xr b"
  "ub (algoUsingSim.extend b g) = ub b"
  "simMat (algo.extend a (algoUsingSim.fields M)) = M"
  "simMat (algoUsingSim.extend b g) = simMat b"
  "k (algoUsingSim.extend b (algoBasicCollaborative.fields n)) = n"
  by (simp_all add: algo.defs algoUsingSim.defs algoBasicCollaborative.defs)

lemma knn_msd_Inr:
  "knn_msd = Inr (algoUsingSim.extend
      (algo.extend msd_relation
         (algoUsingSim.fields (constructMSDSimMat msd_relation (np_empty (\<lambda>_. 0) 5 5))))
      (algoBasicCollaborative.fields 40))"
  by (simp add: knn_msd_def constructSimMat_def msd_relation_fields)

text \<open>
  On \<open>msd_relation\<close> with the MSD metric: nobody rated movie 4, and the users 1, 2, 3 who
  rated movie 1 have similarity 0 with user 4.
\<close>

theorem knn_impossible_witness:
  "\<exists>self. knn_msd = Inr self \<and>
     AlgoBasicCollaborative_estimate self 1 4 = Inr (self\<lparr>est := 0\<rparr>) \<and>
     simX0_list self 4 1 [1 ..< lastXi self + 1] = Inr [(1, 0), (2, 0), (3, 0)] \<and>
     AlgoBasicCollaborative_estimate self 4 1 = Inr (self\<lparr>est := 0\<rparr>)"
proof -
  define self where "self = algoUsingSim.extend
      (algo.extend msd_relation
         (algoUsingSim.fields (constructMSDSimMat msd_relation (np_empty (\<lambda>_. 0) 5 5))))
      (algoBasicCollaborative.fields 40)"
  have f: "lastXi self = 4" "nrows (rm self) = 5" "ncols (rm self) = 5" "k self = 40"
    "rm self = rm msd_relation"
    "simMat self = constructMSDSimMat msd_relation (np_empty (\<lambda>_. 0) 5 5)"
    by (simp_all add: self_def msd_relation_fields msd_relation_rm)
  have g14: "getx0y0 self 1 4 = (1, 4)" and g41: "getx0y0 self 4 1 = (4, 1)"
    by (simp_all add: getx0y0_def self_def msd_relation_rm)
  have upt: "[1 ..< lastXi self + 1] = [1, 2, 3, 4]"
    by (simp add: f upt_rec [of _ "numeral _"] upt_rec [of _ "Suc _"])
  have nobody: "\<forall>x \<in> set [1 ..< lastXi self + 1]. cells (rm self) (x, 4) \<le> 0"
    unfolding upt by (simp add: f msd_relation_rm)
  have sx: "simX0_list self 4 1 [1 ..< lastXi self + 1] = Inr [(1, 0), (2, 0), (3, 0)]"
    unfolding upt
    by (simp add: f item_def msd_relation_rm np_empty_def constructMSDSimMat_cells
        msd_relation_fields msd_accumulate_eq msd_value_def dict_sum_def)
  have zero: "sum_list (map snd (take (k self) (sorted_reverse snd [(1::nat, 0::real), (2, 0), (3, 0)]))) = 0"
    by (simp add: sorted_reverse_def f)
  have shape: "lastXi self < nrows (rm self)" "4 < ncols (rm self)"
    by (simp_all add: f(1-3))
  have e14: "AlgoBasicCollaborative_estimate self 1 4 = Inr (self\<lparr>est := 0\<rparr>)"
    using knn_impossible [OF g14] nobody shape by blast
  have e41: "AlgoBasicCollaborative_estimate self 4 1 = Inr (self\<lparr>est := 0\<rparr>)"
    using knn_impossible [OF g41] sx zero by blast
  show ?thesis
    using knn_msd_Inr e14 sx e41 unfolding self_def [symmetric] by blast
qed

lemma knn_single_Inr:
  "knn_single = Inr (algoUsingSim.extend
      (algo.extend (Algo_init 1 1 (array_of_rows [[0, 0], [0, 5]]) [(1, [(1, 5)])] [(1, [(1, 5)])] False)
         (algoUsingSim.fields
            (constructCosineSimMat
               (Algo_init 1 1 (array_of_rows [[0, 0], [0, 5]]) [(1, [(1, 5)])] [(1, [(1, 5)])] False)
               (np_empty (\<lambda>_. 0) 2 2))))
      (algoBasicCollaborative.fields 40))"
  by (simp add: knn_single_def AlgoBasicCollaborative_init_def AlgoUsingSim_init_def
      constructSimMat_def Algo_init_def Let_def numeral_2_eq_2)

text \<open>
  When \<open>x0\<close> itself has rated \<open>y0\<close> and nobody else has, \<open>x0\<close> is its own neighbour:
  with the cosine metric the estimate is its own rating, here 5, not the sentinel.
\<close>

theorem knn_own_rating_counterexample:
  "\<exists>self. knn_single = Inr self \<and>
     filter (\<lambda>x. 0 < cells (rm self) (x, 1)) [1 ..< lastXi self + 1] = [1] \<and>
     AlgoBasicCollaborative_estimate self 1 1 = Inr (self\<lparr>est := 5\<rparr>)"
proof -
  define a where "a = Algo_init 1 1 (array_of_rows [[0, 0], [0, 5]]) [(1, [(1, 5)])] [(1, [(1, 5)])] False"
  define self where "self = algoUsingSim.extend
      (algo.extend a (algoUsingSim.fields (constructCosineSimMat a (np_empty (\<lambda>_. 0) 2 2))))
      (algoBasicCollaborative.fields 40)"
  have a: "lastXi a = 1" "ub a" "nrows (rm a) = 2" "ncols (rm a) = 2"
    "cells (rm a) (x, y) = [[0, 0], [0, 5]] ! y ! x" for x y
    by (simp_all add: a_def Algo_init_def transpose_array_def array_of_rows_def)
  have f: "lastXi self = 1" "k self = 40" "rm self = rm a" "ub self"
    "simMat self = constructCosineSimMat a (np_empty (\<lambda>_. 0) 2 2)"
    by (simp_all add: self_def a)
  have single: "knn_single = Inr self"
    unfolding self_def a_def by (rule knn_single_Inr)
  have raters: "filter (\<lambda>x. 0 < cells (rm self) (x, 1)) [1 ..< lastXi self + 1] = [1]"
    by (simp add: f a)
  have sx: "simX0_list self 1 1 [1 ..< lastXi self + 1] = Inr [(1, 1)]"
    by (simp add: f a item_def np_empty_def constructCosineSimMat_cells)
  have "AlgoBasicCollaborative_estimate self 1 1 = Inr (self\<lparr>est := 5\<rparr>)"
    using sx
    by (simp add: AlgoBasicCollaborative_estimate_def getx0y0_def f a sorted_reverse_def
        item_def np_average_def)
  then show ?thesis using single raters by blast
qed

subsection \<open>AlgoBaselineOnly\<close>

text \<open>
  Claim C5. For every query whose pair \<open>(x0, y0)\<close> (the query under the orientation) is
  inside the two arrays of biases, the estimate is exactly
  \<open>mu + xBiases[x0] + yBiases[y0]\<close>: nothing is raised and the value is not clamped.
\<close>

theorem baseline_only_exact:
  assumes "getx0y0 self u0 m0 = (x0, y0)"
    and "x0 < length (xBiases self)" and "y0 < length (yBiases self)"
  shows "AlgoBaselineOnly_estimate self u0 m0 =
           Inr (self\<lparr>est := mu self + xBiases self ! x0 + yBiases self ! y0\<rparr>)"
  using assms by (simp add: AlgoBaselineOnly_estimate_def getBaseline_def item1_def)

text \<open>
  On \<open>baseline_state\<close> the estimate is 6, above the range of the ratings; the caller's
  \<^verbatim>\<open>cut_estimate(1, 5)\<close> would make it 5.
\<close>

theorem baseline_only_exact_witness:
  "AlgoBaselineOnly_estimate baseline_state 1 1 = Inr (baseline_state\<lparr>est := 6\<rparr>) \<and>
   cut_estimate (baseline_state\<lparr>est := 6\<rparr>) 1 5 = baseline_state\<lparr>est := 5\<rparr>"
proof -
  have g: "getx0y0 baseline_state 1 1 = (1, 1)"
    by (simp add: getx0y0_def baseline_state_def)
  have x: "1 < length (xBiases baseline_state)" and y: "1 < length (yBiases baseline_state)"
    by (simp_all add: baseline_state_def)
  have v: "mu baseline_state + xBiases baseline_state ! 1 + yBiases baseline_state ! 1 = 6"
    by (simp add: baseline_state_def)
  have c: "cut_estimate (baseline_state\<lparr>est := 6\<rparr>) 1 5 = baseline_state\<lparr>est := 5\<rparr>"
    by (simp add: cut_estimate_def)
  show ?thesis using baseline_only_exact [OF g x y] v c by simp
qed

text \<open>
  The arrays of biases that the constructor leaves have an entry for every index up to
  \<open>lastXi\<close> and \<open>lastYi\<close>, whatever the method.
\<close>

lemma base_fields [simp]:
  "mu (algo.extend a (algoWithBaseline.fields m xb yb)) = m"
  "xBiases (algo.extend a (algoWithBaseline.fields m xb yb)) = xb"
  "yBiases (algo.extend a (algoWithBaseline.fields m xb yb)) = yb"
  "lastYi (algo.extend a f) = lastYi a"
  by (simp_all add: algo.defs algoWithBaseline.defs)

lemma sgd_step_length:
  assumes "sgd_step m t (xb, yb) = Inr (xb', yb')"
  shows "length xb' = length xb \<and> length yb' = length yb"
  using assms
  by (auto simp: sgd_step_def ebind_eq_Inr Let_def split: prod.splits)

lemma sgd_pass_length:
  assumes "sgd_pass m ts (xb, yb) = Inr (xb', yb')"
  shows "length xb' = length xb \<and> length yb' = length yb"
  using assms
proof (induction ts arbitrary: xb yb)
  case Nil
  then show ?case by simp
next
  case (Cons t ts)
  from Cons.prems obtain xb1 yb1 where s: "sgd_step m t (xb, yb) = Inr (xb1, yb1)"
    and p: "sgd_pass m ts (xb1, yb1) = Inr (xb', yb')"
    by (auto simp: ebind_eq_Inr)
  show ?case using Cons.IH [OF p] sgd_step_length [OF s] by simp
qed

lemma sgd_passes_length:
  assumes "sgd_passes n m ts (xb, yb) = Inr (xb', yb')"
  shows "length xb' = length xb \<and> length yb' = length yb"
  using assms
proof (induction n arbitrary: xb yb)
  case 0
  then show ?case by simp
next
  case (Suc n)
  from Suc.prems obtain xb1 yb1 where s: "sgd_pass m ts (xb, yb) = Inr (xb1, yb1)"
    and p: "sgd_passes n m ts (xb1, yb1) = Inr (xb', yb')"
    by (auto simp: ebind_eq_Inr)
  show ?case using Suc.IH [OF p] sgd_pass_length [OF s] by simp
qed

lemma als_sweep_length:
  assumes "als_sweep m reg other d ids biases = Inr biases'"
  shows "length biases' = length biases"
  using assms
  by (induction ids arbitrary: biases) (auto simp: ebind_eq_Inr)

lemma als_iteration_lengths:
  assumes "als_iteration self = Inr self'"
  shows "length (xBiases self') = lastXi self + 1 \<and> length (yBiases self') = lastYi self + 1 \<and>
         lastXi self' = lastXi self \<and> lastYi self' = lastYi self \<and> mu self' = mu self"
proof -
  from assms obtain yb xb where
    yb: "als_sweep (mu self) (if \<not> ub self then 15 else 10) (xBiases self) (yr self)
           [1 ..< lastYi self + 1] (replicate (lastYi self + 1) 0) = Inr yb" and
    xb: "als_sweep (mu self) (if ub self then 15 else 10) yb (xr self)
           [1 ..< lastXi self + 1] (replicate (lastXi self + 1) 0) = Inr xb" and
    self': "self' = self\<lparr>xBiases := xb, yBiases := yb\<rparr>"
    unfolding als_iteration_def Let_def by (auto simp: ebind_eq_Inr)
  show ?thesis
    using als_sweep_length [OF yb] als_sweep_length [OF xb] by (simp add: self')
qed

lemma als_iterations_lengths:
  assumes "als_iterations n self = Inr self'"
    and "length (xBiases self) = lastXi self + 1" and "length (yBiases self) = lastYi self + 1"
  shows "length (xBiases self') = lastXi self' + 1 \<and> length (yBiases self') = lastYi self' + 1"
  using assms
proof (induction n arbitrary: self)
  case 0
  then show ?case by simp
next
  case (Suc n)
  from Suc.prems(1) obtain s1 where s1: "als_iteration self = Inr s1"
    and rest: "als_iterations n s1 = Inr self'"
    by (auto simp: ebind_eq_Inr)
  show ?case
    using Suc.IH [OF rest] als_iteration_lengths [OF s1] by simp
qed

lemma optimize_sgd_lengths:
  assumes "optimize_sgd self = Inr self'"
    and "length (xBiases self) = lastXi self + 1" and "length (yBiases self) = lastYi self + 1"
  shows "length (xBiases self') = lastXi self' + 1 \<and> length (yBiases self') = lastYi self' + 1"
proof -
  from assms(1) obtain xb yb where
    p: "sgd_passes 20 (mu self) (iterAllRatings self) (xBiases self, yBiases self) = Inr (xb, yb)"
    and self': "self' = self\<lparr>xBiases := xb, yBiases := yb\<rparr>"
    unfolding optimize_sgd_def Let_def by (auto simp: ebind_eq_Inr)
  show ?thesis
    using sgd_passes_length [OF p] assms(2,3) by (simp add: self')
qed

lemma AlgoWithBaseline_init_lengths:
  assumes "AlgoWithBaseline_init lastUi lastMi rm0 ur mr movieBased method = Inr self"
  shows "length (xBiases self) = lastXi self + 1 \<and> length (yBiases self) = lastYi self + 1"
proof -
  define a where "a = Algo_init lastUi lastMi rm0 ur mr movieBased"
  from assms obtain m where
    r: "(let self = algo.extend a
                        (algoWithBaseline.fields m (replicate (lastXi a + 1) 0)
                           (replicate (lastYi a + 1) 0))
           in if method = ''sgd'' then optimize_sgd self
              else if method = ''als'' then optimize_als self
              else Inr self) = Inr self"
    unfolding AlgoWithBaseline_init_def Let_def a_def [symmetric]
    by (auto simp: ebind_eq_Inr Let_def)
  define s0 where "s0 = algo.extend a
                        (algoWithBaseline.fields m (replicate (lastXi a + 1) 0)
                           (replicate (lastYi a + 1) 0))"
  have l0: "length (xBiases s0) = lastXi s0 + 1" "length (yBiases s0) = lastYi s0 + 1"
    by (simp_all add: s0_def)
  have r': "(if method = ''sgd'' then optimize_sgd s0
              else if method = ''als'' then optimize_als s0 else Inr s0) = Inr self"
    using r unfolding Let_def s0_def [symmetric] .
  show ?thesis
  proof (cases "method = ''sgd''")
    case True
    then show ?thesis using r' optimize_sgd_lengths [OF _ l0] by simp
  next
    case False
    show ?thesis
    proof (cases "method = ''als''")
      case True
      then have "als_iterations 10 s0 = Inr self"
        using r' False by (simp add: optimize_als_def)
      then show ?thesis using als_iterations_lengths [OF _ l0] by blast
    next
      case no: False
      then show ?thesis using r' False l0 by simp
    qed
  qed
qed

subsection \<open>ALS on a constant relation\<close>

lemma dev_sum_constant:
  assumes "\<forall>(x, r) \<in> set l. r = v \<and> x < n"
  shows "dev_sum (real_of_int v) (replicate n 0) l = Inr 0"
  using assms by (induction l) (auto simp: item1_def)

lemma als_sweep_constant:
  assumes "\<forall>y \<in> set ids. \<forall>(x, r) \<in> set (ratings_of d y). r = v \<and> x < n"
  shows "als_sweep (real_of_int v) reg (replicate n 0) d ids (replicate k' 0) = Inr (replicate k' 0)"
  using assms
proof (induction ids)
  case Nil
  show ?case by simp
next
  case (Cons y ids)
  have "dev_sum (real_of_int v) (replicate n 0) (ratings_of d y) = Inr 0"
    using Cons.prems by (intro dev_sum_constant) simp
  moreover have "(replicate k' (0::real))[y := 0] = replicate k' 0"
    by (cases "y < k'") (auto simp: list_eq_iff_nth_eq nth_list_update)
  ultimately show ?case using Cons by simp
qed

lemma mean_constant:
  assumes "\<forall>r \<in> set rs. r > 0 \<longrightarrow> r = v" and "\<exists>r \<in> set rs. r > 0"
  shows "np_mean (map real_of_int (filter (\<lambda>r. r > 0) rs)) = Inr (real_of_int v)"
proof -
  let ?ps = "filter (\<lambda>r. r > 0) rs"
  have all: "\<forall>r \<in> set ?ps. r = v" using assms(1) by simp
  have ne: "?ps \<noteq> []" using assms(2) by (simp add: filter_empty_conv) 
  have "map real_of_int ?ps = replicate (length ?ps) (real_of_int v)"
    using all by (intro replicate_eqI) auto
  then have "sum_list (map real_of_int ?ps) = real (length ?ps) * real_of_int v"
    by (simp add: sum_list_replicate)
  then show ?thesis using ne by (simp add: np_mean_def)
qed

lemma als_iteration_constant:
  assumes "constant_relation self v" and "mu self = real_of_int v"
    and "xBiases self = replicate (lastXi self + 1) 0"
    and "yBiases self = replicate (lastYi self + 1) 0"
  shows "als_iteration self = Inr self"
proof -
  have y: "\<forall>y \<in> set [1 ..< lastYi self + 1]. \<forall>(x, r) \<in> set (ratings_of (yr self) y).
             r = v \<and> x < lastXi self + 1"
    and x: "\<forall>x \<in> set [1 ..< lastXi self + 1]. \<forall>(y, r) \<in> set (ratings_of (xr self) x).
             r = v \<and> y < lastYi self + 1"
    using assms(1) unfolding constant_relation_def list_all_iff by fastforce+
  have ys: "als_sweep (real_of_int v) reg (replicate (lastXi self + 1) 0) (yr self)
              [1 ..< lastYi self + 1] (replicate (lastYi self + 1) 0) =
            Inr (replicate (lastYi self + 1) 0)" for reg
    using y by (rule als_sweep_constant)
  have xs: "als_sweep (real_of_int v) reg (replicate (lastYi self + 1) 0) (xr self)
              [1 ..< lastXi self + 1] (replicate (lastXi self + 1) 0) =
            Inr (replicate (lastXi self + 1) 0)" for reg
    using x by (rule als_sweep_constant)
  have "self\<lparr>xBiases := replicate (lastXi self + 1) 0, yBiases := replicate (lastYi self + 1) 0\<rparr> = self"
    using assms(3,4) by simp
  then show ?thesis
    unfolding als_iteration_def Let_def assms(2,3) ys xs ebind_simps by simp
qed

lemma als_iterations_fixed:
  assumes "als_iteration self = Inr self"
  shows "als_iterations n self = Inr self"
  using assms by (induction n) simp_all

text \<open>
  Claim C6. On a relation where every present rating is \<open>v\<close> (and one is present) the
  constructor computes \<open>mu = v\<close>; one ALS iteration on the freshly initialised object
  leaves every bias 0, and so do the ten iterations of the method \<^verbatim>\<open>'als'\<close>.
\<close>

theorem als_constant_relation:
  assumes "constant_relation (Algo_init lastUi lastMi rm0 ur mr movieBased) v"
  shows "\<exists>self. AlgoWithBaseline_init lastUi lastMi rm0 ur mr movieBased ''opt'' = Inr self \<and>
           mu self = real_of_int v \<and>
           xBiases self = replicate (lastXi self + 1) 0 \<and>
           yBiases self = replicate (lastYi self + 1) 0 \<and>
           als_iteration self = Inr self \<and>
           AlgoWithBaseline_init lastUi lastMi rm0 ur mr movieBased ''als'' = Inr self"
proof -
  define a where "a = Algo_init lastUi lastMi rm0 ur mr movieBased"
  define self where "self = algo.extend a
     (algoWithBaseline.fields (real_of_int v) (replicate (lastXi a + 1) 0) (replicate (lastYi a + 1) 0))"
  have c: "constant_relation a v" using assms by (simp add: a_def)
  have "\<forall>r \<in> set (entries (rm a)). r > 0 \<longrightarrow> r = v" and "\<exists>r \<in> set (entries (rm a)). r > 0"
    using c unfolding constant_relation_def list_all_iff list_ex_iff by blast+
  then have m: "np_mean (map real_of_int (filter (\<lambda>r. r > 0) (entries (rm a)))) = Inr (real_of_int v)"
    by (rule mean_constant)
  have cs: "constant_relation self v"
    using c by (simp add: constant_relation_def self_def)
  have f: "mu self = real_of_int v" "xBiases self = replicate (lastXi self + 1) 0"
    "yBiases self = replicate (lastYi self + 1) 0"
    by (simp_all add: self_def)
  have it: "als_iteration self = Inr self"
    using als_iteration_constant [OF cs f] .
  have init: "AlgoWithBaseline_init lastUi lastMi rm0 ur mr movieBased name =
      (if name = ''sgd'' then optimize_sgd self
       else if name = ''als'' then optimize_als self else Inr self)" for name
    by (simp only: AlgoWithBaseline_init_def Let_def a_def [symmetric] m ebind_simps
        self_def [symmetric])
  have opt: "AlgoWithBaseline_init lastUi lastMi rm0 ur mr movieBased ''opt'' = Inr self"
    unfolding init by simp
  have als: "AlgoWithBaseline_init lastUi lastMi rm0 ur mr movieBased ''als'' = Inr self"
    unfolding init using als_iterations_fixed [OF it, of 10]
    by (simp add: optimize_als_def)
  show ?thesis using opt f it als by blast
qed

lemma constant_relation3_holds: "constant_relation constant_relation3 3"
  by code_simp

text \<open>On \<open>constant_relation3\<close>: \<open>mu\<close> is 3 and the biases are 0.\<close>

theorem als_constant_relation_witness:
  "\<exists>self. AlgoWithBaseline_init 2 2 (array_of_rows [[0, 0, 0], [0, 3, 3], [0, 3, 0]])
             [(1, [(1, 3), (2, 3)]), (2, [(1, 3)])]
             [(1, [(1, 3), (2, 3)]), (2, [(1, 3)])] False ''als'' = Inr self \<and>
          mu self = 3 \<and> xBiases self = [0, 0, 0] \<and> yBiases self = [0, 0, 0]"
proof -
  have c: "constant_relation
     (Algo_init 2 2 (array_of_rows [[0, 0, 0], [0, 3, 3], [0, 3, 0]])
             [(1, [(1, 3), (2, 3)]), (2, [(1, 3)])]
             [(1, [(1, 3), (2, 3)]), (2, [(1, 3)])] False) 3"
    using constant_relation3_holds by (simp add: constant_relation3_def)
  obtain self where
    self: "AlgoWithBaseline_init 2 2 (array_of_rows [[0, 0, 0], [0, 3, 3], [0, 3, 0]])
             [(1, [(1, 3), (2, 3)]), (2, [(1, 3)])]
             [(1, [(1, 3), (2, 3)]), (2, [(1, 3)])] False ''opt'' = Inr self"
    and f: "mu self = real_of_int 3" "xBiases self = replicate (lastXi self + 1) 0"
      "yBiases self = replicate (lastYi self + 1) 0"
    and als: "AlgoWithBaseline_init 2 2 (array_of_rows [[0, 0, 0], [0, 3, 3], [0, 3, 0]])
             [(1, [(1, 3), (2, 3)]), (2, [(1, 3)])]
             [(1, [(1, 3), (2, 3)]), (2, [(1, 3)])] False ''als'' = Inr self"
    using als_constant_relation [OF c] by blast
  have l: "lastXi self = 2" "lastYi self = 2"
    using self
    by (auto simp: AlgoWithBaseline_init_def Let_def ebind_eq_Inr Algo_init_def)
  have "xBiases self = [0, 0, 0]" "yBiases self = [0, 0, 0]"
    using f l by (simp_all add: numeral_3_eq_3)
  then show ?thesis using als f(1) by auto
qed

subsection \<open>AlgoRandom\<close>

lemma random_estimate_ignores_query:
  "AlgoRandom_estimate self rvs u0 m0 = AlgoRandom_estimate self rvs u0' m0'"
  by (simp add: AlgoRandom_estimate_def)

text \<open>
  Claim C7. The loops of the constructor stop before \<open>lastXi\<close> and \<open>lastYi\<close>. On the
  relation of two users and two movies only the rating of user 1 for movie 1 is counted:
  the distribution gives probability 1 to the rating 1, while the histogram of the whole
  relation gives 1/2 to 1 and 1/2 to 5. On the relation of one user and one movie nothing
  is counted and the normalisation raises ZeroDivisionError.
\<close>

theorem random_histogram_misses_last:
  "(\<exists>self. AlgoRandom_init 2 2 random_relation_rm [(1, [(1, 1)]), (2, [(2, 5)])]
              [(1, [(1, 1)]), (2, [(2, 5)])] = Inr self \<and>
           distrib self = [1, 0, 0, 0, 0] \<and>
           whole_histogram self = [1 / 2, 0, 0, 0, 1 / 2]) \<and>
   AlgoRandom_init 1 1 (array_of_rows [[0, 0], [0, 5]]) [(1, [(1, 5)])] [(1, [(1, 5)])] =
     Inl ZeroDivisionError"
proof -
  define a where "a = Algo_init 2 2 random_relation_rm [(1, [(1, 1)]), (2, [(2, 5)])]
              [(1, [(1, 1)]), (2, [(2, 5)])] False"
  have a: "lastXi a = 2" "lastYi a = 2" "nrows (rm a) = 3" "ncols (rm a) = 3"
    "cells (rm a) (x, y) = [[0, 0, 0], [0, 1, 0], [0, 0, 5]] ! y ! x" for x y
    by (simp_all add: a_def Algo_init_def random_relation_rm_def transpose_array_def
        array_of_rows_def)
  have cnt: "count_ratings a
      (concat (map (\<lambda>x. map (\<lambda>y. (x, y)) [1 ..< lastYi a]) [1 ..< lastXi a])) [0, 0, 0, 0, 0] =
      Inr [1, 0, 0, 0, 0]"
    by (simp add: a count_rating_def item_def upt_rec [of _ "numeral _"] upt_rec [of _ "Suc _"])
  have init: "AlgoRandom_init 2 2 random_relation_rm [(1, [(1, 1)]), (2, [(2, 5)])]
              [(1, [(1, 1)]), (2, [(2, 5)])] =
          Inr (algo.extend a (algoRandom.fields [1, 0, 0, 0, 0]))"
    unfolding AlgoRandom_init_def Let_def a_def [symmetric] cnt by simp
  have d: "distrib (algo.extend a (algoRandom.fields [1, 0, 0, 0, 0])) = [1, 0, 0, 0, 0]"
    by (simp add: algo.defs algoRandom.defs)
  have w: "whole_histogram (algo.extend a (algoRandom.fields [1, 0, 0, 0, 0])) =
             [1 / 2, 0, 0, 0, 1 / 2]"
    by (simp add: whole_histogram_def a Let_def upt_rec [of _ "numeral _"] upt_rec [of _ "Suc _"])
  have z: "AlgoRandom_init 1 1 (array_of_rows [[0, 0], [0, 5]]) [(1, [(1, 5)])] [(1, [(1, 5)])] =
     Inl ZeroDivisionError"
    by (simp add: AlgoRandom_init_def Let_def Algo_init_def)
  show ?thesis using init d w z by blast
qed

subsection \<open>AlgoClone\<close>

lemma mem_offsets:
  assumes "- 4 \<le> off" and "off \<le> 4" and "P off"
  shows "rx + off \<in> set [rx + c. c \<leftarrow> [-4..4], P c]"
proof -
  have "off \<in> set [-4..4]" using assms(1,2) by (simp only: set_upto atLeastAtMost_iff)
  then show ?thesis using assms(3) by (induction "[-4..4::int]") auto
qed

text \<open>
  Every offset of \<open>-4..4\<close> for which a neighbour \<open>x\<close> of \<open>yr[y0]\<close> with a common
  rating is a clone contributes the candidate \<open>rx\<close> plus the offset.
\<close>

lemma clone_candidates_mem:
  assumes "clone_candidates self x0 nbs = Inr cs"
    and "(x, rx) \<in> set nbs"
    and "commonRatings self x0 x (ratings_of (xr self) x0) = Inr cr"
    and "cr \<noteq> []"
    and "- 4 \<le> off" and "off \<le> 4"
    and "isClone (map fst cr) (map snd cr) off"
  shows "rx + off \<in> set cs"
  using assms(1,2)
proof (induction nbs arbitrary: cs)
  case Nil
  then show ?case by simp
next
  case (Cons nb nbs)
  obtain x' rx' where nb: "nb = (x', rx')" by (cases nb)
  from Cons.prems(1) obtain cr' cs' where
    cr': "commonRatings self x0 x' (ratings_of (xr self) x0) = Inr cr'" and
    cs': "clone_candidates self x0 nbs = Inr cs'" and
    cs: "cs = (if cr' = [] then []
               else [rx' + c. c \<leftarrow> [-4..4], isClone (map fst cr') (map snd cr') c]) @ cs'"
    by (auto simp: nb ebind_eq_Inr simp del: upto_rec_numeral)
  show ?case
  proof (cases "(x, rx) = nb")
    case True
    then have "cr' = cr" using cr' assms(3) nb by simp
    moreover have "rx + off \<in> set [rx + c. c \<leftarrow> [-4..4], isClone (map fst cr) (map snd cr) c]"
      using assms(5-7) by (rule mem_offsets)
    ultimately show ?thesis using assms(4) True nb cs by (simp del: upto_rec_numeral)
  next
    case False
    then have "(x, rx) \<in> set nbs" using Cons.prems(2) by simp
    then have "rx + off \<in> set cs'" using Cons.IH cs' by blast
    then show ?thesis using cs by simp
  qed
qed

lemma scenario_common:
  "commonRatings scenario_clone 1 2 (ratings_of (xr scenario_clone) 1) =
     Inr [(3, 1), (4, 2), (5, 3)]"
  by (simp add: scenario_clone_def Algo_init_def ratings_of_def item_def array_of_rows_def
      transpose_array_def)

lemma scenario_candidates:
  "clone_candidates scenario_clone 1 (ratings_of (yr scenario_clone) 4) = Inr [5, 6, 7]"
  by (simp add: scenario_clone_def Algo_init_def ratings_of_def item_def array_of_rows_def
      transpose_array_def isClone_def upto.simps)

text \<open>
  Claim C8. When the ratings of \<open>x0\<close> and of a neighbour \<open>x\<close> on their common movies are
  3, 4, 5 and 1, 2, 3, the neighbour is a 2-clone (the sum of \<open>|a - b - 2|\<close> is 0, at most 3);
  and if that neighbour rated the queried \<open>y0\<close> with 4, then 4 + 2 = 6 is one of the
  candidates, and the estimate is the unweighted mean of the candidates (the estimate does
  not raise as soon as the candidate loop does not).
\<close>

theorem clone_scenario:
  assumes "getx0y0 self u0 m0 = (x0, y0)"
    and "(x, 4) \<in> set (ratings_of (yr self) y0)"
    and "commonRatings self x0 x (ratings_of (xr self) x0) = Inr [(3, 1), (4, 2), (5, 3)]"
    and "clone_candidates self x0 (ratings_of (yr self) y0) = Inr cs"
  shows "isClone [3, 4, 5] [1, 2, 3] 2 \<and> 6 \<in> set cs \<and>
         AlgoClone_estimate self u0 m0 =
           Inr (self\<lparr>est := sum_list (map real_of_int cs) / real (length cs)\<rparr>)"
proof -
  have clone: "isClone [3, 4, 5] [1, 2, 3] 2"
    by (simp add: isClone_def)
  have "4 + 2 \<in> set cs"
    using clone_candidates_mem [OF assms(4) assms(2) assms(3), of 2] clone by simp
  then have mem: "6 \<in> set cs" by simp
  then have "cs \<noteq> []" by auto
  then have "AlgoClone_estimate self u0 m0 =
           Inr (self\<lparr>est := sum_list (map real_of_int cs) / real (length cs)\<rparr>)"
    using assms(1,4) by (simp add: AlgoClone_estimate_def np_mean_def)
  with clone mem show ?thesis by simp
qed

text \<open>
  The scenario itself: user 2 is a 1-, 2- and 3-clone of user 1, the candidates for
  movie 4 are 5, 6, 7 and the estimate is 6.
\<close>

theorem clone_scenario_witness:
  "isClone [3, 4, 5] [1, 2, 3] 2 \<and> 6 \<in> set [5, 6, 7::int] \<and>
   AlgoClone_estimate scenario_clone 1 4 = Inr (scenario_clone\<lparr>est := 6\<rparr>)"
proof -
  have g: "getx0y0 scenario_clone 1 4 = (1, 4)"
    by (simp add: getx0y0_def scenario_clone_def Algo_init_def)
  have m: "(2, 4) \<in> set (ratings_of (yr scenario_clone) 4)"
    by (simp add: scenario_clone_def Algo_init_def ratings_of_def)
  show ?thesis
    using clone_scenario [OF g m scenario_common scenario_candidates] by simp
qed

subsection \<open>The sentinel 0 and estimates that are 0\<close>

text \<open>
  The objects that the two estimators are called on hold 99 in \<open>est\<close>, a value that no
  estimator writes, so that what \<open>est\<close> holds afterwards was written by the call.
\<close>

lemma zero_clone_candidates:
  "clone_candidates (zero_clone\<lparr>est := 99\<rparr>) 1 (ratings_of (yr zero_clone) 4) = Inr [0]"
  by (simp add: zero_clone_def Algo_init_def ratings_of_def item_def array_of_rows_def
      transpose_array_def isClone_def upto.simps)

lemma zero_clone_no_candidates:
  "clone_candidates (zero_clone\<lparr>est := 99\<rparr>) 1 (ratings_of (yr zero_clone) 5) = Inr []"
  by (simp add: zero_clone_def Algo_init_def ratings_of_def item_def array_of_rows_def
      transpose_array_def)

lemma zero_clone_getx0y0: "getx0y0 (zero_clone\<lparr>est := 99\<rparr>) u0 m0 = (u0, m0)"
  by (simp add: getx0y0_def zero_clone_def Algo_init_def)

lemma zero_meandiff_candidates:
  "meandiff_candidates (zero_meandiff\<lparr>est := 99\<rparr>) 1 (ratings_of (yr zero_meandiff) 2) =
     Inr [(0, 1)]"
  by (simp add: zero_meandiff_def Algo_init_def ratings_of_def item_def array_of_rows_def
      transpose_array_def meanDiff_def np_mean_def np_std_def)

lemma zero_meandiff_no_candidates:
  "meandiff_candidates (zero_meandiff\<lparr>est := 99\<rparr>) 1 (ratings_of (yr zero_meandiff) 3) = Inr []"
  by (simp add: zero_meandiff_def Algo_init_def ratings_of_def item_def array_of_rows_def
      transpose_array_def)

lemma zero_meandiff_getx0y0: "getx0y0 (zero_meandiff\<lparr>est := 99\<rparr>) u0 m0 = (u0, m0)"
  by (simp add: getx0y0_def zero_meandiff_def Algo_init_def)

text \<open>
  Claim C10. The impossible outcome is the number 0 in \<open>est\<close>, and a genuine estimate can
  be 0 too. Both estimators are called on an object whose \<open>est\<close> is 99. For \<open>zero_clone\<close>
  and the query (1, 4) AlgoClone has the single candidate 4 + (-4) = 0, whose mean 0 it
  writes to \<open>est\<close>; for the query (1, 5) it has no candidate (the only user who rated
  movie 5 shares no movie with user 1) and writes the sentinel 0: the two objects
  returned are equal. The same holds for AlgoMeanDiff on \<open>zero_meandiff\<close>, whose single
  candidate for (1, 2) is 4 + (-4) = 0 with weight 1. \<open>updatePreds\<close> then records the
  object returned as impossible and replaces its estimate by 3.
\<close>

theorem zero_estimate_is_impossible:
  "est (zero_clone\<lparr>est := 99\<rparr>) = 99 \<and> est (zero_meandiff\<lparr>est := 99\<rparr>) = 99 \<and>
   clone_candidates (zero_clone\<lparr>est := 99\<rparr>) 1 (ratings_of (yr (zero_clone\<lparr>est := 99\<rparr>)) 4) =
     Inr [0] \<and>
   AlgoClone_estimate (zero_clone\<lparr>est := 99\<rparr>) 1 4 = Inr (zero_clone\<lparr>est := 0\<rparr>) \<and>
   clone_candidates (zero_clone\<lparr>est := 99\<rparr>) 1 (ratings_of (yr (zero_clone\<lparr>est := 99\<rparr>)) 5) =
     Inr [] \<and>
   AlgoClone_estimate (zero_clone\<lparr>est := 99\<rparr>) 1 5 = Inr (zero_clone\<lparr>est := 0\<rparr>) \<and>
   meandiff_candidates (zero_meandiff\<lparr>est := 99\<rparr>) 1
       (ratings_of (yr (zero_meandiff\<lparr>est := 99\<rparr>)) 2) = Inr [(0, 1)] \<and>
   AlgoMeanDiff_estimate (zero_meandiff\<lparr>est := 99\<rparr>) 1 2 = Inr (zero_meandiff\<lparr>est := 0\<rparr>) \<and>
   meandiff_candidates (zero_meandiff\<lparr>est := 99\<rparr>) 1
       (ratings_of (yr (zero_meandiff\<lparr>est := 99\<rparr>)) 3) = Inr [] \<and>
   AlgoMeanDiff_estimate (zero_meandiff\<lparr>est := 99\<rparr>) 1 3 = Inr (zero_meandiff\<lparr>est := 0\<rparr>) \<and>
   zero_clone\<lparr>est := 0\<rparr> \<noteq> zero_clone\<lparr>est := 99\<rparr> \<and>
   zero_meandiff\<lparr>est := 0\<rparr> \<noteq> zero_meandiff\<lparr>est := 99\<rparr> \<and>
   updatePreds (zero_clone\<lparr>est := 0\<rparr>) 1 4 4 =
     zero_clone\<lparr>est := 3,
       preds := [\<lparr>wasImpossible = True, pred_u0 = 1, pred_m0 = 4, pred_r0 = 4, pred_est = 3\<rparr>]\<rparr>"
proof -
  have c1: "AlgoClone_estimate (zero_clone\<lparr>est := 99\<rparr>) 1 4 = Inr (zero_clone\<lparr>est := 0\<rparr>)"
    using zero_clone_candidates
    by (simp add: AlgoClone_estimate_def zero_clone_getx0y0 np_mean_def)
  have c2: "AlgoClone_estimate (zero_clone\<lparr>est := 99\<rparr>) 1 5 = Inr (zero_clone\<lparr>est := 0\<rparr>)"
    using zero_clone_no_candidates
    by (simp add: AlgoClone_estimate_def zero_clone_getx0y0)
  have m1: "AlgoMeanDiff_estimate (zero_meandiff\<lparr>est := 99\<rparr>) 1 2 =
              Inr (zero_meandiff\<lparr>est := 0\<rparr>)"
    using zero_meandiff_candidates
    by (simp add: AlgoMeanDiff_estimate_def zero_meandiff_getx0y0 np_average_def)
  have m2: "AlgoMeanDiff_estimate (zero_meandiff\<lparr>est := 99\<rparr>) 1 3 =
              Inr (zero_meandiff\<lparr>est := 0\<rparr>)"
    using zero_meandiff_no_candidates
    by (simp add: AlgoMeanDiff_estimate_def zero_meandiff_getx0y0)
  have d1: "zero_clone\<lparr>est := 0\<rparr> \<noteq> zero_clone\<lparr>est := 99\<rparr>"
    by (metis algo.select_convs(7) algo.surjective algo.update_convs(7) zero_neq_numeral)
  have d2: "zero_meandiff\<lparr>est := 0\<rparr> \<noteq> zero_meandiff\<lparr>est := 99\<rparr>"
    by (metis algo.select_convs(7) algo.surjective algo.update_convs(7) zero_neq_numeral)
  have u: "updatePreds (zero_clone\<lparr>est := 0\<rparr>) 1 4 4 =
     zero_clone\<lparr>est := 3,
       preds := [\<lparr>wasImpossible = True, pred_u0 = 1, pred_m0 = 4, pred_r0 = 4, pred_est = 3\<rparr>]\<rparr>"
    by (simp add: updatePreds_def zero_clone_def Algo_init_def)
  show ?thesis
    using c1 c2 m1 m2 d1 d2 u zero_clone_candidates zero_clone_no_candidates
      zero_meandiff_candidates zero_meandiff_no_candidates
    by simp
qed

end
